theory Spec2Isabelle
  imports
    Main
    "HOL-Library.Sublist"
    "HOL-Library.Multiset"
    "HOL-Library.AList"
    "HOL-Library.Char_ord"
    "HOL-Library.List_Lexorder"
begin

section \<open>Go strings: Join, Split, Cut, TrimSpace\<close>

text \<open>
  A Go string is a sequence of bytes, here a \<^typ>\<open>string\<close> (a list of 8-bit characters).
  \<open>strings.Join(elems, sep)\<close> concatenates the elements with the separator between them;
  the join of no element is the empty string.
\<close>

fun Join :: "string list \<Rightarrow> string \<Rightarrow> string" where
  "Join [] sep = []"
| "Join [a] sep = a"
| "Join (a # b # bs) sep = a @ sep @ Join (b # bs) sep"

text \<open>
  \<open>strings.Cut(s, sep)\<close> for a one-byte separator: the text before the first separator,
  the text after it, and whether the separator was found. Without a separator the result is
  \<open>(s, "", false)\<close>.
\<close>

definition Cut :: "string \<Rightarrow> char \<Rightarrow> string \<times> string \<times> bool" where
  "Cut s sep =
     (if sep \<in> set s
      then (takeWhile (\<lambda>c. c \<noteq> sep) s, tl (dropWhile (\<lambda>c. c \<noteq> sep) s), True)
      else (s, [], False))"

text \<open>
  \<open>strings.Split(s, sep)\<close> for a one-byte separator: all the substrings between
  separators. A string with no separator gives the one-element list \<open>[s]\<close>, so the split
  of the empty string is \<open>[""]\<close>, never the empty list.
\<close>

function Split :: "string \<Rightarrow> char \<Rightarrow> string list" where
  "Split s sep =
     (if sep \<in> set s
      then takeWhile (\<lambda>c. c \<noteq> sep) s # Split (tl (dropWhile (\<lambda>c. c \<noteq> sep) s)) sep
      else [s])"
  by pat_completeness auto
termination
proof (relation "measure (\<lambda>(s, sep). length s)")
  show "wf (measure (\<lambda>(s, sep). length s))" by simp
next
  fix s :: string and sep :: char
  assume "sep \<in> set s"
  then have "dropWhile (\<lambda>c. c \<noteq> sep) s \<noteq> []" by simp
  then have "length (tl (dropWhile (\<lambda>c. c \<noteq> sep) s)) < length (dropWhile (\<lambda>c. c \<noteq> sep) s)"
    by (cases "dropWhile (\<lambda>c. c \<noteq> sep) s") simp_all
  also have "\<dots> \<le> length s" by (rule length_dropWhile_le)
  finally show "((tl (dropWhile (\<lambda>c. c \<noteq> sep) s), sep), (s, sep)) \<in> measure (\<lambda>(s, sep). length s)"
    by simp
qed

declare Split.simps [simp del]

text \<open>
  \<open>strings.TrimSpace(s)\<close> removes leading and trailing white space as Unicode defines it
  (\<open>unicode.IsSpace\<close>). On bytes, a white-space rune is one of the UTF-8 encodings below:
  U+0009 to U+000D, U+0020, U+0085, U+00A0, U+1680, U+2000 to U+200A, U+2028, U+2029,
  U+202F, U+205F and U+3000. A byte that starts no such encoding (an invalid sequence
  decodes to U+FFFD) stops the trimming.
\<close>

definition whiteSpace :: "string list" where
  "whiteSpace =
     [[CHR 0x09], [CHR 0x0A], [CHR 0x0B], [CHR 0x0C], [CHR 0x0D], [CHR 0x20],
      [CHR 0xC2, CHR 0x85], [CHR 0xC2, CHR 0xA0],
      [CHR 0xE1, CHR 0x9A, CHR 0x80],
      [CHR 0xE2, CHR 0x80, CHR 0x80], [CHR 0xE2, CHR 0x80, CHR 0x81],
      [CHR 0xE2, CHR 0x80, CHR 0x82], [CHR 0xE2, CHR 0x80, CHR 0x83],
      [CHR 0xE2, CHR 0x80, CHR 0x84], [CHR 0xE2, CHR 0x80, CHR 0x85],
      [CHR 0xE2, CHR 0x80, CHR 0x86], [CHR 0xE2, CHR 0x80, CHR 0x87],
      [CHR 0xE2, CHR 0x80, CHR 0x88], [CHR 0xE2, CHR 0x80, CHR 0x89],
      [CHR 0xE2, CHR 0x80, CHR 0x8A],
      [CHR 0xE2, CHR 0x80, CHR 0xA8], [CHR 0xE2, CHR 0x80, CHR 0xA9],
      [CHR 0xE2, CHR 0x80, CHR 0xAF],
      [CHR 0xE2, CHR 0x81, CHR 0x9F],
      [CHR 0xE3, CHR 0x80, CHR 0x80]]"

text \<open>
  Trimming on the left drops encodings of white-space runes while the string starts with
  one. The list of encodings is a parameter: trimming on the right is the same loop on the
  reversed string with the reversed encodings.
\<close>

function trimPrefixes :: "string list \<Rightarrow> string \<Rightarrow> string" where
  "trimPrefixes ws s =
     (case find (\<lambda>w. w \<noteq> [] \<and> prefix w s) ws of
        Some w \<Rightarrow> trimPrefixes ws (drop (length w) s)
      | None \<Rightarrow> s)"
  by pat_completeness auto
termination
proof (relation "measure (\<lambda>(ws, s). length s)")
  show "wf (measure (\<lambda>(ws, s). length s))" by simp
next
  fix ws :: "string list" and s w :: string
  assume "find (\<lambda>w. w \<noteq> [] \<and> prefix w s) ws = Some w"
  then have "w \<noteq> []" and "prefix w s"
    by (auto simp: find_Some_iff)
  then have "length (drop (length w) s) < length s"
    by (cases s) (auto simp: prefix_def)
  then show "((ws, drop (length w) s), (ws, s)) \<in> measure (\<lambda>(ws, s). length s)"
    by simp
qed

declare trimPrefixes.simps [simp del]

definition TrimLeft :: "string \<Rightarrow> string" where
  "TrimLeft s = trimPrefixes whiteSpace s"

definition TrimRight :: "string \<Rightarrow> string" where
  "TrimRight s = rev (trimPrefixes (map rev whiteSpace) (rev s))"

definition TrimSpace :: "string \<Rightarrow> string" where
  "TrimSpace s = TrimRight (TrimLeft s)"

section \<open>net/http: header fields\<close>

text \<open>
  \<open>http.Header\<close> is a \<open>map[string][]string\<close> keyed by the canonical form of the field
  name. \<open>textproto.CanonicalMIMEHeaderKey\<close> leaves a name with a byte outside the token
  characters of RFC 7230 as it is; otherwise the first letter and every letter after a
  hyphen is made upper case and every other letter lower case.
\<close>

definition validHeaderFieldByte :: "char \<Rightarrow> bool" where
  "validHeaderFieldByte c =
     (c \<in> set ''!#$%&*+-.^_`|~0123456789abcdefghijklmnopqrstuvwxyzABCDEFGHIJKLMNOPQRSTUVWXYZ''
      \<or> c = CHR 0x27)"

definition toUpper :: "char \<Rightarrow> char" where
  "toUpper c =
     (case map_of (zip ''abcdefghijklmnopqrstuvwxyz'' ''ABCDEFGHIJKLMNOPQRSTUVWXYZ'') c of
        Some u \<Rightarrow> u | None \<Rightarrow> c)"

definition toLower :: "char \<Rightarrow> char" where
  "toLower c =
     (case map_of (zip ''ABCDEFGHIJKLMNOPQRSTUVWXYZ'' ''abcdefghijklmnopqrstuvwxyz'') c of
        Some l \<Rightarrow> l | None \<Rightarrow> c)"

fun canonicalMIMEHeaderKey :: "bool \<Rightarrow> string \<Rightarrow> string" where
  "canonicalMIMEHeaderKey upper [] = []"
| "canonicalMIMEHeaderKey upper (c # a) =
     (let c = (if upper then toUpper c else toLower c)
      in c # canonicalMIMEHeaderKey (c = CHR ''-'') a)"

definition CanonicalMIMEHeaderKey :: "string \<Rightarrow> string" where
  "CanonicalMIMEHeaderKey s =
     (if list_all validHeaderFieldByte s then canonicalMIMEHeaderKey True s else s)"

type_synonym Header = "string \<rightharpoonup> string list"

text \<open>
  \<open>Header.Get\<close> returns the first value stored under the canonical key, or the empty
  string when there is none. \<open>Header.Set\<close> replaces whatever is stored under the canonical
  key by the single value.
\<close>

definition Header_Get :: "Header \<Rightarrow> string \<Rightarrow> string" where
  "Header_Get h key =
     (case h (CanonicalMIMEHeaderKey key) of
        None \<Rightarrow> []
      | Some v \<Rightarrow> (case v of [] \<Rightarrow> [] | x # _ \<Rightarrow> x))"

definition Header_Set :: "Header \<Rightarrow> string \<Rightarrow> string \<Rightarrow> Header" where
  "Header_Set h key value = h(CanonicalMIMEHeaderKey key \<mapsto> [value])"

section \<open>net/url: query strings\<close>

text \<open>
  \<open>url.Values\<close> is a \<open>map[string][]string\<close>. It is kept as an association list with one
  entry for each key, because \<open>Encode\<close> walks the keys in sorted order.
\<close>

type_synonym Values = "(string \<times> string list) list"

definition Values_lookup :: "Values \<Rightarrow> string \<Rightarrow> string list" where
  "Values_lookup v key = (case map_of v key of None \<Rightarrow> [] | Some vs \<Rightarrow> vs)"

text \<open>\<open>v[key] = append(v[key], value)\<close>, as \<open>parseQuery\<close> stores a pair.\<close>

definition Values_append :: "Values \<Rightarrow> string \<Rightarrow> string \<Rightarrow> Values" where
  "Values_append v key value = AList.update key (Values_lookup v key @ [value]) v"

text \<open>\<open>Values.Set\<close>: \<open>v[key] = []string{value}\<close>.\<close>

definition Values_Set :: "Values \<Rightarrow> string \<Rightarrow> string \<Rightarrow> Values" where
  "Values_Set v key value = AList.update key [value] v"

definition ishex :: "char \<Rightarrow> bool" where
  "ishex c = (c \<in> set ''0123456789abcdefABCDEF'')"

text \<open>\<open>unhex\<close> is only applied to a hexadecimal digit.\<close>

definition unhex :: "char \<Rightarrow> nat" where
  "unhex c =
     (case map_of (zip ''0123456789abcdefABCDEF''
                       [0, 1, 2, 3, 4, 5, 6, 7, 8, 9, 10, 11, 12, 13, 14, 15, 10, 11, 12, 13, 14, 15]) c of
        Some n \<Rightarrow> n | None \<Rightarrow> 0)"

definition upperhex :: "nat \<Rightarrow> char" where
  "upperhex n = ''0123456789ABCDEF'' ! n"

text \<open>
  \<open>shouldEscape(c, encodeQueryComponent)\<close>: letters, digits and \<open>- _ . ~\<close> are kept, every
  other byte is escaped.
\<close>

definition shouldEscape :: "char \<Rightarrow> bool" where
  "shouldEscape c =
     (c \<notin> set ''abcdefghijklmnopqrstuvwxyzABCDEFGHIJKLMNOPQRSTUVWXYZ0123456789-_.~'')"

definition escapeByte :: "char \<Rightarrow> string" where
  "escapeByte c =
     (if shouldEscape c
      then (if c = CHR '' '' then ''+''
            else [CHR ''%'', upperhex (of_char c div 16), upperhex (of_char c mod 16)])
      else [c])"

definition QueryEscape :: "string \<Rightarrow> string" where
  "QueryEscape s = concat (map escapeByte s)"

text \<open>
  \<open>url.QueryUnescape\<close>: \<open>%XY\<close> with two hexadecimal digits is the byte \<open>0xXY\<close>, \<open>+\<close> is
  a space; a \<open>%\<close> that two hexadecimal digits do not follow is an error
  (\<open>None\<close>).
\<close>

fun QueryUnescape :: "string \<Rightarrow> string option" where
  "QueryUnescape [] = Some []"
| "QueryUnescape (c # s) =
     (if c = CHR ''%'' then
        (case s of
           h1 # h2 # t \<Rightarrow>
             (if ishex h1 \<and> ishex h2
              then map_option ((#) (char_of (unhex h1 * 16 + unhex h2))) (QueryUnescape t)
              else None)
         | _ \<Rightarrow> None)
      else map_option ((#) (if c = CHR ''+'' then CHR '' '' else c)) (QueryUnescape s))"

text \<open>
  The loop of \<open>url.parseQuery(m, query)\<close>: the pairs are separated by \<open>&\<close>; a pair with
  a semicolon, an empty pair, and a pair whose key or value does not unescape are skipped;
  the others are appended to the values of their key.
\<close>

function parseQueryLoop :: "Values \<Rightarrow> string \<Rightarrow> Values" where
  "parseQueryLoop m query =
     (if query = [] then m
      else
        (let key = fst (Cut query CHR ''&''); query' = fst (snd (Cut query CHR ''&'')) in
         if CHR '';'' \<in> set key then parseQueryLoop m query'
         else if key = [] then parseQueryLoop m query'
         else
           (let value = fst (snd (Cut key CHR ''=''));
                key = fst (Cut key CHR ''='')
            in case QueryUnescape key of
                 None \<Rightarrow> parseQueryLoop m query'
               | Some key \<Rightarrow>
                   (case QueryUnescape value of
                      None \<Rightarrow> parseQueryLoop m query'
                    | Some value \<Rightarrow> parseQueryLoop (Values_append m key value) query'))))"
  by pat_completeness auto

termination
proof -
  have rest: "length (fst (snd (Cut s sep))) < length s" if "s \<noteq> []" for s :: string and sep
  proof (cases "sep \<in> set s")
    case True
    then have "dropWhile (\<lambda>c. c \<noteq> sep) s \<noteq> []" by simp
    then have "length (tl (dropWhile (\<lambda>c. c \<noteq> sep) s)) < length (dropWhile (\<lambda>c. c \<noteq> sep) s)"
      by (cases "dropWhile (\<lambda>c. c \<noteq> sep) s") simp_all
    also have "\<dots> \<le> length s" by (rule length_dropWhile_le)
    finally show ?thesis using True by (simp add: Cut_def)
  next
    case False
    with that show ?thesis by (simp add: Cut_def)
  qed
  show ?thesis
    by (relation "measure (\<lambda>(m, query). length query)") (auto simp: rest)
qed

declare parseQueryLoop.simps [simp del]

text \<open>
  \<open>url.parseQuery\<close> first counts the pairs, \<open>strings.Count(query, "&") + 1\<close>, and
  returns an error, with nothing stored, when there are more than
  \<open>urlmaxqueryparams\<close> allows: 10000 when the setting is not changed, as here.
  \<open>URL.Query()\<close> drops the error that \<open>ParseQuery\<close> reports, for this and for the
  skipped pairs, and returns what was stored.
\<close>

definition urlParamsWithinMax :: "nat \<Rightarrow> bool" where
  "urlParamsWithinMax params = (params \<le> 10000)"

definition parseQuery :: "Values \<Rightarrow> string \<Rightarrow> Values" where
  "parseQuery m query =
     (if \<not> urlParamsWithinMax (count_list query CHR ''&'' + 1) then m
      else parseQueryLoop m query)"

definition Query :: "string \<Rightarrow> Values" where
  "Query rawQuery = parseQuery [] rawQuery"

text \<open>
  \<open>Values.Encode\<close>: \<open>key=value\<close> for every value of every key, the keys sorted, both sides
  escaped, joined by \<open>&\<close>.
\<close>

definition Encode :: "Values \<Rightarrow> string" where
  "Encode v =
     Join (concat (map (\<lambda>k. map (\<lambda>x. QueryEscape k @ ''='' @ QueryEscape x) (Values_lookup v k))
                      (sort (map fst v)))) ''&''"

section \<open>Package oauth\<close>

subsection \<open>Config and the default beta features\<close>

record Config =
  AccessToken :: string
  RefreshToken :: string
  Betas :: "string list"
  UserAgent :: string
  UseBetaEndpoint :: bool

text \<open>
  \<open>DefaultOAuthBetas\<close> is a package variable; the model takes the value it is
  initialised with (lines 41 to 46) and has no assignment to it.
\<close>

definition DefaultOAuthBetas :: "string list" where
  "DefaultOAuthBetas =
     [''oauth-2025-04-20'',
      ''interleaved-thinking-2025-05-14'',
      ''claude-code-20250219'',
      ''fine-grained-tool-streaming-2025-05-14'']"

subsection \<open>The request and the middleware chain\<close>

text \<open>
  Of the \<open>*http.Request\<close> the middleware reads and writes the header fields and
  \<open>URL.RawQuery\<close>. The request is mutated in place in Go; here the mutated request is
  returned. A request has a header map and a URL (neither is nil).
\<close>

record Request =
  Header :: Header
  RawQuery :: string

text \<open>
  \<open>option.MiddlewareNext\<close> is \<open>func(*http.Request) (*http.Response, error)\<close>. Sending a
  request acts on the world outside the program, so the successor takes the world \<open>'w\<close>
  and returns its result \<open>'a\<close> (the response and the error) with the world it leaves.
\<close>

type_synonym ('w, 'a) MiddlewareNext = "Request \<Rightarrow> 'w \<Rightarrow> 'a \<times> 'w"

type_synonym ('w, 'a) Middleware = "Request \<Rightarrow> ('w, 'a) MiddlewareNext \<Rightarrow> 'w \<Rightarrow> 'a \<times> 'w"

subsection \<open>oauthMiddleware\<close>

text \<open>
  \<open>betaSet\<close> is a \<open>map[string]bool\<close> in which every stored value is \<open>true\<close>: it is kept
  as the list of its keys, each once, in the order of their first insertion.
  \<open>betaSet[k] = true\<close> is \<open>mapStore\<close>.
\<close>

definition mapStore :: "string list \<Rightarrow> string \<Rightarrow> string list" where
  "mapStore m k = (if k \<in> set m then m else m @ [k])"

text \<open>
  \<open>for b := range betaSet\<close> visits every key once, in an order that Go leaves open and
  that may change from one loop to the next. The order is the parameter \<open>iter\<close> of the
  middleware: from the keys of the map to the keys as the loop visits them.
  \<open>rangeOrder iter\<close> says that \<open>iter\<close> is such an order.
\<close>

definition rangeOrder :: "(string list \<Rightarrow> string list) \<Rightarrow> bool" where
  "rangeOrder iter = (\<forall>ks. mset (iter ks) = mset ks)"

text \<open>The two loops that fill \<open>betaSet\<close> (lines 135 to 141).\<close>

definition betaSet :: "string \<Rightarrow> string list \<Rightarrow> string list" where
  "betaSet existingBetas betas =
     foldl (\<lambda>m b. mapStore m b)
       (foldl (\<lambda>m b. mapStore m (TrimSpace b)) [] (Split existingBetas CHR '',''))
       betas"

text \<open>
  The request as the closure leaves it before it calls \<open>next\<close> (lines 129 to 163): the
  \<open>anthropic-beta\<close> header, the \<open>User-Agent\<close> header, the \<open>beta\<close> query parameter.
\<close>

definition oauthRequest :: "Config \<Rightarrow> (string list \<Rightarrow> string list) \<Rightarrow> Request \<Rightarrow> Request" where
  "oauthRequest cfg iter r =
     (let r =
        (if length (Betas cfg) > 0 then
           (let existingBetas = Header_Get (Header r) ''anthropic-beta'' in
            if existingBetas \<noteq> [] then
              (let allBetas = iter (betaSet existingBetas (Betas cfg))
               in r\<lparr>Header := Header_Set (Header r) ''anthropic-beta'' (Join allBetas '','')\<rparr>)
            else r\<lparr>Header := Header_Set (Header r) ''anthropic-beta'' (Join (Betas cfg) '','')\<rparr>)
         else r);
          r =
        (if UserAgent cfg \<noteq> [] then
           r\<lparr>Header := Header_Set (Header r) ''User-Agent'' (UserAgent cfg)\<rparr>
         else r);
          r =
        (if UseBetaEndpoint cfg then
           (let q = Query (RawQuery r);
                q = Values_Set q ''beta'' ''true''
            in r\<lparr>RawQuery := Encode q\<rparr>)
         else r)
      in r)"

definition oauthMiddleware :: "Config \<Rightarrow> (string list \<Rightarrow> string list) \<Rightarrow> ('w, 'a) Middleware" where
  "oauthMiddleware cfg iter r next = next (oauthRequest cfg iter r)"

subsection \<open>The request configuration and its options\<close>

datatype error = OptionError string

text \<open>
  Modelled from the spec: \<open>requestconfig.RequestConfig\<close> is not among the sources. The
  spec describes the pipeline as an ordered list of configuration units around the
  request, each of the form \<open>(request, next) -> response-or-error\<close>, ended by a terminal
  send step. The configuration holds the request under construction and that list.
\<close>

record ('w, 'a) RequestConfig =
  Request :: Request
  Middlewares :: "('w, 'a) Middleware list"

type_synonym ('w, 'a) RequestOption = "('w, 'a) RequestConfig \<Rightarrow> error + ('w, 'a) RequestConfig"

text \<open>
  Modelled from the spec: \<open>RequestConfig.Apply\<close> is not among the sources. The options are
  applied in the order given; the first error ends the application.
\<close>

fun Apply :: "('w, 'a) RequestConfig \<Rightarrow> ('w, 'a) RequestOption list \<Rightarrow> error + ('w, 'a) RequestConfig" where
  "Apply rc [] = Inr rc"
| "Apply rc (opt # opts) = (case opt rc of Inl err \<Rightarrow> Inl err | Inr rc' \<Rightarrow> Apply rc' opts)"

text \<open>
  Modelled from the spec: \<open>option.WithAuthToken\<close> is not among the sources. The spec
  (4.4 and 6) has this unit establish the header \<open>Authorization: Bearer <token>\<close>; it
  gives the unit no other case, so the header is set for every token, the empty one too.
\<close>

definition WithAuthToken :: "string \<Rightarrow> ('w, 'a) RequestOption" where
  "WithAuthToken value rc =
     Inr (rc\<lparr>Request := (Request rc)\<lparr>Header :=
            Header_Set (Header (Request rc)) ''Authorization'' (''Bearer '' @ value)\<rparr>\<rparr>)"

text \<open>
  Modelled from the spec: \<open>option.WithMiddleware\<close> is not among the sources. It adds the
  unit at the end of the chain of the configuration.
\<close>

definition WithMiddleware :: "('w, 'a) Middleware \<Rightarrow> ('w, 'a) RequestOption" where
  "WithMiddleware m rc = Inr (rc\<lparr>Middlewares := Middlewares rc @ [m]\<rparr>)"

text \<open>
  Modelled from the spec: the execution of a configuration is not among the sources. Every
  unit receives the request and its successor; the successor of the last unit is the
  terminal send step.
\<close>

fun runMiddlewares :: "('w, 'a) Middleware list \<Rightarrow> ('w, 'a) MiddlewareNext \<Rightarrow> ('w, 'a) MiddlewareNext" where
  "runMiddlewares [] send = send"
| "runMiddlewares (m # ms) send = (\<lambda>r. m r (runMiddlewares ms send))"

definition Execute :: "('w, 'a) RequestConfig \<Rightarrow> ('w, 'a) MiddlewareNext \<Rightarrow> 'w \<Rightarrow> 'a \<times> 'w" where
  "Execute rc send = runMiddlewares (Middlewares rc) send (Request rc)"

subsection \<open>WithConfig, WithAccessToken, WithLoadEnv\<close>

text \<open>
  \<open>WithConfig\<close> first replaces an empty \<open>cfg.Betas\<close> by the default list (lines 82 to 84);
  \<open>WithConfig_cfg\<close> is the configuration that the returned closure captures.
\<close>

definition WithConfig_cfg :: "Config \<Rightarrow> Config" where
  "WithConfig_cfg cfg = (if length (Betas cfg) = 0 then cfg\<lparr>Betas := DefaultOAuthBetas\<rparr> else cfg)"

definition WithConfig :: "(string list \<Rightarrow> string list) \<Rightarrow> Config \<Rightarrow> ('w, 'a) RequestOption" where
  "WithConfig iter cfg =
     (let cfg = WithConfig_cfg cfg
      in (\<lambda>rc. Apply rc [WithAuthToken (AccessToken cfg), WithMiddleware (oauthMiddleware cfg iter)]))"

text \<open>A \<open>Config\<close> literal gives every field that it does not name its zero value.\<close>

definition WithAccessToken :: "(string list \<Rightarrow> string list) \<Rightarrow> string \<Rightarrow> ('w, 'a) RequestOption" where
  "WithAccessToken iter accessToken =
     WithConfig iter
       \<lparr>AccessToken = accessToken, RefreshToken = [], Betas = [], UserAgent = [],
        UseBetaEndpoint = False\<rparr>"

text \<open>
  The environment is the lookup \<open>env\<close>; \<open>os.Getenv\<close> returns the empty string for a
  variable that is not set. \<open>WithLoadEnv_accessToken\<close> is the local variable
  \<open>accessToken\<close> of \<open>WithLoadEnv\<close> after lines 116 to 119.
\<close>

definition Getenv :: "(string \<rightharpoonup> string) \<Rightarrow> string \<Rightarrow> string" where
  "Getenv env key = (case env key of None \<Rightarrow> [] | Some v \<Rightarrow> v)"

definition WithLoadEnv_accessToken :: "(string \<rightharpoonup> string) \<Rightarrow> string" where
  "WithLoadEnv_accessToken env =
     (let accessToken = Getenv env ''ANTHROPIC_OAUTH_ACCESS_TOKEN''
      in if accessToken = [] then Getenv env ''ANTHROPIC_ACCESS_TOKEN'' else accessToken)"

definition WithLoadEnv :: "(string list \<Rightarrow> string list) \<Rightarrow> (string \<rightharpoonup> string) \<Rightarrow> ('w, 'a) RequestOption" where
  "WithLoadEnv iter env =
     WithConfig iter
       \<lparr>AccessToken = WithLoadEnv_accessToken env, RefreshToken = [], Betas = [], UserAgent = [],
        UseBetaEndpoint = False\<rparr>"

section \<open>Notions used to state the properties\<close>

text \<open>
  The tokens of a header value, as the middleware reads an existing header (lines 136 and
  137): the value is split at commas and every piece is trimmed.
\<close>

definition headerTokens :: "string \<Rightarrow> string set" where
  "headerTokens h = TrimSpace ` set (Split h CHR '','')"

text \<open>
  A successor that keeps the list of the requests it was called with, in front of the
  world of the successor it wraps.
\<close>

definition recording :: "('w, 'a) MiddlewareNext \<Rightarrow> (Request list \<times> 'w, 'a) MiddlewareNext" where
  "recording next r = (\<lambda>(calls, w). case next r w of (res, w') \<Rightarrow> (res, (calls @ [r], w')))"

text \<open>A terminal send step that answers with the Authorization values of the request it is given.\<close>

definition authorizationSeen :: "('w, string list option) MiddlewareNext" where
  "authorizationSeen r w = (Header r (CanonicalMIMEHeaderKey ''Authorization''), w)"

text \<open>A terminal send step that answers with the \<open>anthropic-beta\<close> value of the request it is given.\<close>

definition betaSeen :: "('w, string) MiddlewareNext" where
  "betaSeen r w = (Header_Get (Header r) ''anthropic-beta'', w)"

text \<open>Concrete configurations and requests.\<close>

definition example_rc :: "Header \<Rightarrow> ('w, 'a) RequestConfig" where
  "example_rc h = \<lparr>Request = \<lparr>Header = h, RawQuery = []\<rparr>, Middlewares = []\<rparr>"


definition example_cfg :: "string list \<Rightarrow> Config" where
  "example_cfg betas =
     \<lparr>AccessToken = ''T'', RefreshToken = [], Betas = betas, UserAgent = [], UseBetaEndpoint = False\<rparr>"

definition example_request :: "string \<Rightarrow> Request" where
  "example_request existingBetas =
     \<lparr>Header = (if existingBetas = [] then Map.empty else [''Anthropic-Beta'' \<mapsto> [existingBetas]]),
      RawQuery = []\<rparr>"

text \<open>
  The pairs that \<open>Encode\<close> writes, in the order in which it writes them, and the text of
  one pair.
\<close>

definition queryPair :: "string \<times> string \<Rightarrow> string" where
  "queryPair p = QueryEscape (fst p) @ ''='' @ QueryEscape (snd p)"

definition queryPairs :: "Values \<Rightarrow> (string \<times> string) list" where
  "queryPairs v = concat (map (\<lambda>k. map (Pair k) (Values_lookup v k)) (sort (map fst v)))"

section \<open>Splitting and joining\<close>

lemma set_mapStore: "set (mapStore m k) = insert k (set m)"
  by (auto simp: mapStore_def)

lemma distinct_mapStore: "distinct m \<Longrightarrow> distinct (mapStore m k)"
  by (simp add: mapStore_def)

lemma set_foldl_mapStore: "set (foldl (\<lambda>m b. mapStore m (f b)) m0 bs) = set m0 \<union> f ` set bs"
  by (induction bs arbitrary: m0) (auto simp: set_mapStore)

lemma distinct_foldl_mapStore:
  "distinct m0 \<Longrightarrow> distinct (foldl (\<lambda>m b. mapStore m (f b)) m0 bs)"
  by (induction bs arbitrary: m0) (simp_all add: distinct_mapStore)

lemma set_betaSet:
  "set (betaSet existingBetas betas) = TrimSpace ` set (Split existingBetas CHR '','') \<union> set betas"
  using set_foldl_mapStore [of "\<lambda>b. b"] by (simp add: betaSet_def set_foldl_mapStore)

lemma distinct_betaSet: "distinct (betaSet existingBetas betas)"
  using distinct_foldl_mapStore [of _ "\<lambda>b. b"] by (simp add: betaSet_def distinct_foldl_mapStore)

lemma rangeOrder_set: "rangeOrder iter \<Longrightarrow> set (iter ks) = set ks"
  by (metis rangeOrder_def mset_eq_setD)

lemma rangeOrder_distinct: "rangeOrder iter \<Longrightarrow> distinct (iter ks) = distinct ks"
  by (metis rangeOrder_def mset_eq_imp_distinct_iff)

lemma Split_nonempty: "Split s sep \<noteq> []"
  by (subst Split.simps) simp

lemma Split_no_sep: "sep \<notin> set s \<Longrightarrow> Split s sep = [s]"
  by (subst Split.simps) simp

lemma Split_append_sep: "Split (a @ sep # b) sep = Split a sep @ Split b sep"
proof (induction a sep rule: Split.induct)
  case (1 s sep)
  show ?case
  proof (cases "sep \<in> set s")
    case True
    then have d: "dropWhile (\<lambda>c. c \<noteq> sep) s \<noteq> []" by simp
    have "Split (s @ sep # b) sep =
        takeWhile (\<lambda>c. c \<noteq> sep) s # Split (tl (dropWhile (\<lambda>c. c \<noteq> sep) s) @ sep # b) sep"
      using True d by (subst Split.simps) (simp add: takeWhile_append1 dropWhile_append1)
    also have "\<dots> = takeWhile (\<lambda>c. c \<noteq> sep) s #
        (Split (tl (dropWhile (\<lambda>c. c \<noteq> sep) s)) sep @ Split b sep)"
      using "1.IH" [OF True] by simp
    also have "\<dots> = Split s sep @ Split b sep"
      using True by (subst (2) Split.simps) simp
    finally show ?thesis .
  next
    case False
    then have t: "takeWhile (\<lambda>c. c \<noteq> sep) (s @ sep # b) = s"
      by (subst takeWhile_append2) auto
    from False have d: "dropWhile (\<lambda>c. c \<noteq> sep) (s @ sep # b) = sep # b"
      by (subst dropWhile_append2) auto
    have "Split (s @ sep # b) sep = s # Split b sep"
      by (subst Split.simps) (simp add: t d)
    then show ?thesis using False by (simp add: Split_no_sep)
  qed
qed

lemma Split_sep_free: "t \<in> set (Split s sep) \<Longrightarrow> sep \<notin> set t"
proof (induction s sep rule: Split.induct)
  case (1 s sep)
  show ?case
  proof (cases "sep \<in> set s")
    case True
    from "1.prems" have "t = takeWhile (\<lambda>c. c \<noteq> sep) s \<or> t \<in> set (Split (tl (dropWhile (\<lambda>c. c \<noteq> sep) s)) sep)"
      using True by (subst (asm) Split.simps) simp
    then show ?thesis
    proof
      assume "t = takeWhile (\<lambda>c. c \<noteq> sep) s"
      then show ?thesis by (auto dest: set_takeWhileD)
    next
      assume "t \<in> set (Split (tl (dropWhile (\<lambda>c. c \<noteq> sep) s)) sep)"
      then show ?thesis using "1.IH" [OF True] by simp
    qed
  next
    case False
    with "1.prems" show ?thesis by (simp add: Split_no_sep)
  qed
qed

lemma Split_Join:
  "ks \<noteq> [] \<Longrightarrow> Split (Join ks [sep]) sep = concat (map (\<lambda>k. Split k sep) ks)"
proof (induction ks "[sep]" rule: Join.induct)
  case 1
  then show ?case by simp
next
  case (2 a)
  then show ?case by simp
next
  case (3 a b bs)
  then show ?case by (simp add: Split_append_sep)
qed

lemma Split_Join_sep_free:
  assumes "ks \<noteq> []" and "\<forall>k\<in>set ks. sep \<notin> set k"
  shows "Split (Join ks [sep]) sep = ks"
proof -
  have "concat (map (\<lambda>k. Split k sep) ks) = concat (map (\<lambda>k. [k]) ks)"
    using assms(2) by (intro arg_cong [where f = concat] map_cong) (simp_all add: Split_no_sep)
  also have "\<dots> = ks" by (induction ks) simp_all
  finally show ?thesis using assms(1) by (simp add: Split_Join)
qed

section \<open>Header fields\<close>

lemma Header_Get_Set_same: "Header_Get (Header_Set h key value) key = value"
  by (simp add: Header_Get_def Header_Set_def)

lemma Header_Get_Set_other:
  "CanonicalMIMEHeaderKey key' \<noteq> CanonicalMIMEHeaderKey key \<Longrightarrow>
   Header_Get (Header_Set h key value) key' = Header_Get h key'"
  by (simp add: Header_Get_def Header_Set_def)

lemma canon_beta: "CanonicalMIMEHeaderKey ''anthropic-beta'' = ''Anthropic-Beta''"
  by code_simp

lemma canon_user_agent: "CanonicalMIMEHeaderKey ''User-Agent'' = ''User-Agent''"
  by code_simp

lemma canon_authorization: "CanonicalMIMEHeaderKey ''Authorization'' = ''Authorization''"
  by code_simp

lemma oauthRequest_beta_header:
  "Header_Get (Header (oauthRequest cfg iter r)) ''anthropic-beta'' =
     (if Betas cfg = [] then Header_Get (Header r) ''anthropic-beta''
      else if Header_Get (Header r) ''anthropic-beta'' = [] then Join (Betas cfg) '',''
      else Join (iter (betaSet (Header_Get (Header r) ''anthropic-beta'') (Betas cfg))) '','')"
  by (simp add: oauthRequest_def Let_def Header_Get_Set_same Header_Get_Set_other
      canon_beta canon_user_agent)

lemma oauthRequest_authorization:
  "Header (oauthRequest cfg iter r) (CanonicalMIMEHeaderKey ''Authorization'') =
   Header r (CanonicalMIMEHeaderKey ''Authorization'')"
  by (simp add: oauthRequest_def Let_def Header_Set_def canon_beta canon_user_agent
      canon_authorization)

lemma merged_keys:
  assumes "rangeOrder iter"
  shows "distinct (iter (betaSet e bs))"
    and "set (iter (betaSet e bs)) = TrimSpace ` set (Split e CHR '','') \<union> set bs"
    and "iter (betaSet e bs) \<noteq> []"
proof -
  show "distinct (iter (betaSet e bs))"
    using assms by (simp add: rangeOrder_distinct distinct_betaSet)
  show s: "set (iter (betaSet e bs)) = TrimSpace ` set (Split e CHR '','') \<union> set bs"
    using assms by (simp add: rangeOrder_set set_betaSet)
  have "set (Split e CHR '','') \<noteq> {}" by (simp add: Split_nonempty)
  with s show "iter (betaSet e bs) \<noteq> []" by auto
qed

section \<open>Trimming\<close>

lemma trimPrefixes_suffix: "suffix (trimPrefixes ws s) s"
proof (induction ws s rule: trimPrefixes.induct)
  case (1 ws s)
  show ?case
  proof (cases "find (\<lambda>w. w \<noteq> [] \<and> prefix w s) ws")
    case None
    then show ?thesis by (subst trimPrefixes.simps) simp
  next
    case (Some w)
    have "suffix (trimPrefixes ws (drop (length w) s)) (drop (length w) s)"
      using "1.IH" [OF Some] .
    then have "suffix (trimPrefixes ws (drop (length w) s)) s"
      using suffix_drop suffix_order.trans by blast
    then show ?thesis using Some by (subst trimPrefixes.simps) simp
  qed
qed

lemma trimPrefixes_done:
  "find (\<lambda>w. w \<noteq> [] \<and> prefix w (trimPrefixes ws s)) ws = None"
proof (induction ws s rule: trimPrefixes.induct)
  case (1 ws s)
  show ?case
  proof (cases "find (\<lambda>w. w \<noteq> [] \<and> prefix w s) ws")
    case None
    then show ?thesis by (subst trimPrefixes.simps) simp
  next
    case (Some w)
    then show ?thesis using "1.IH" [OF Some] by (subst trimPrefixes.simps) simp
  qed
qed

lemma trimPrefixes_fixed:
  "find (\<lambda>w. w \<noteq> [] \<and> prefix w s) ws = None \<Longrightarrow> trimPrefixes ws s = s"
  by (subst trimPrefixes.simps) simp

lemma TrimLeft_suffix: "suffix (TrimLeft s) s"
  by (simp add: TrimLeft_def trimPrefixes_suffix)

lemma TrimRight_prefix: "prefix (TrimRight s) s"
  using trimPrefixes_suffix [of "map rev whiteSpace" "rev s"]
  by (simp add: TrimRight_def suffix_to_prefix)

lemma TrimRight_idem: "TrimRight (TrimRight s) = TrimRight s"
  by (simp add: TrimRight_def trimPrefixes_fixed trimPrefixes_done)

lemma TrimLeft_TrimRight_TrimLeft: "TrimLeft (TrimRight (TrimLeft s)) = TrimRight (TrimLeft s)"
proof -
  have none: "find (\<lambda>w. w \<noteq> [] \<and> prefix w (TrimLeft s)) whiteSpace = None"
    by (simp add: TrimLeft_def trimPrefixes_done)
  have "find (\<lambda>w. w \<noteq> [] \<and> prefix w (TrimRight (TrimLeft s))) whiteSpace = None"
  proof (rule ccontr)
    assume "find (\<lambda>w. w \<noteq> [] \<and> prefix w (TrimRight (TrimLeft s))) whiteSpace \<noteq> None"
    then obtain w where "w \<in> set whiteSpace" "w \<noteq> []" "prefix w (TrimRight (TrimLeft s))"
      by (auto simp: find_None_iff)
    then have "w \<in> set whiteSpace" "w \<noteq> []" "prefix w (TrimLeft s)"
      using TrimRight_prefix prefix_order.trans by blast+
    with none show False by (auto simp: find_None_iff)
  qed
  then show ?thesis by (simp add: TrimLeft_def trimPrefixes_fixed)
qed

lemma TrimSpace_idem: "TrimSpace (TrimSpace s) = TrimSpace s"
  by (simp add: TrimSpace_def TrimLeft_TrimRight_TrimLeft TrimRight_idem)

lemma set_TrimSpace: "set (TrimSpace s) \<subseteq> set s"
proof -
  have "set (TrimRight (TrimLeft s)) \<subseteq> set (TrimLeft s)"
    using TrimRight_prefix set_mono_prefix by blast
  also have "\<dots> \<subseteq> set s"
    using TrimLeft_suffix set_mono_suffix by blast
  finally show ?thesis by (simp add: TrimSpace_def)
qed

lemma TrimSpace_Nil: "TrimSpace [] = []"
  using set_TrimSpace [of "[]"] by simp

lemma headerTokens_Join:
  "ks \<noteq> [] \<Longrightarrow> headerTokens (Join ks '','') = (\<Union>k\<in>set ks. headerTokens k)"
  using Split_Join [of ks "CHR '',''"] by (auto simp: headerTokens_def)

lemma headerTokens_token:
  assumes "k \<in> headerTokens h"
  shows "headerTokens k = {k}"
proof -
  from assms obtain t where t: "t \<in> set (Split h CHR '','')" and k: "k = TrimSpace t"
    by (auto simp: headerTokens_def)
  have "CHR '','' \<notin> set t" using t by (rule Split_sep_free)
  then have "CHR '','' \<notin> set k" using set_TrimSpace k by blast
  then show ?thesis by (simp add: headerTokens_def Split_no_sep k TrimSpace_idem)
qed

lemma headerTokens_nonempty: "headerTokens h \<noteq> {}"
  by (simp add: headerTokens_def Split_nonempty)

section \<open>The anthropic-beta header\<close>

lemma example_request_beta [simp]:
  "Header_Get (Header (example_request e)) ''anthropic-beta'' = e"
  by (simp add: example_request_def Header_Get_def canon_beta)

lemma rangeOrder_rev: "rangeOrder rev"
  by (simp add: rangeOrder_def)

lemma rangeOrder_id: "rangeOrder (\<lambda>ks. ks)"
  by (simp add: rangeOrder_def)

lemma merged_header:
  assumes "rangeOrder iter" and "Betas cfg \<noteq> []" and "Header_Get (Header r) ''anthropic-beta'' = e"
    and "e \<noteq> []"
  shows "\<exists>ks. Header_Get (Header (oauthRequest cfg iter r)) ''anthropic-beta'' = Join ks '','' \<and>
      ks = iter (betaSet e (Betas cfg)) \<and> ks \<noteq> [] \<and> distinct ks \<and>
      set ks = TrimSpace ` set (Split e CHR '','') \<union> set (Betas cfg) \<and>
      ((\<forall>f\<in>set (Betas cfg). CHR '','' \<notin> set f) \<longrightarrow>
         Split (Header_Get (Header (oauthRequest cfg iter r)) ''anthropic-beta'') CHR '','' = ks)"
proof -
  let ?ks = "iter (betaSet e (Betas cfg))"
  have h: "Header_Get (Header (oauthRequest cfg iter r)) ''anthropic-beta'' = Join ?ks '',''"
    using assms by (simp add: oauthRequest_beta_header)
  note k = merged_keys [OF assms(1), of e "Betas cfg"]
  have "Split (Join ?ks '','') CHR '','' = ?ks" if "\<forall>f\<in>set (Betas cfg). CHR '','' \<notin> set f"
  proof (rule Split_Join_sep_free [OF k(3)])
    show "\<forall>k\<in>set ?ks. CHR '','' \<notin> set k"
    proof
      fix x assume "x \<in> set ?ks"
      then consider t where "t \<in> set (Split e CHR '','')" "x = TrimSpace t" | "x \<in> set (Betas cfg)"
        using k(2) by auto
      then show "CHR '','' \<notin> set x"
      proof cases
        case 1
        then show ?thesis using Split_sep_free set_TrimSpace by blast
      next
        case 2
        then show ?thesis using that by simp
      qed
    qed
  qed
  with h k show ?thesis by simp
qed

text \<open>
  Claim C5. When the request carries no \<open>anthropic-beta\<close> value (the header reads as the
  empty string) and the configuration has at least one flag, the header the middleware
  sets is the flags joined by commas in the order given; no flag is dropped or moved,
  whatever order the runtime would choose for a map.
\<close>

theorem empty_header_joins_flags:
  assumes "Betas cfg \<noteq> []" and "Header_Get (Header r) ''anthropic-beta'' = []"
  shows "Header_Get (Header (oauthRequest cfg iter r)) ''anthropic-beta'' = Join (Betas cfg) '',''"
  using assms by (simp add: oauthRequest_beta_header)

theorem empty_header_joins_flags_witness:
  "Betas (example_cfg [''a'', ''b'']) \<noteq> [] \<and>
   Header_Get (Header (example_request [])) ''anthropic-beta'' = [] \<and>
   Header_Get (Header (oauthRequest (example_cfg [''a'', ''b'']) rev (example_request [])))
     ''anthropic-beta'' = ''a,b''"
  using empty_header_joins_flags [of "example_cfg [''a'', ''b'']" "example_request []" rev]
  by (simp add: example_cfg_def)

text \<open>
  Claim C1, as stated, fails on a request without an \<open>anthropic-beta\<close> header: the flags
  \<open>["a", "a"]\<close> are joined as they are, and the header \<open>a,a\<close> holds the token \<open>a\<close> twice.
\<close>

theorem repeated_flags_counterexample:
  "rangeOrder (\<lambda>ks. ks) \<and>
   Header_Get (Header (oauthRequest (example_cfg [''a'', ''a'']) (\<lambda>ks. ks) (example_request [])))
     ''anthropic-beta'' = ''a,a'' \<and>
   Split ''a,a'' CHR '','' = [''a'', ''a''] \<and>
   count_list (Split ''a,a'' CHR '','') ''a'' = 2"
proof -
  have "Split ''a,a'' CHR '','' = [''a'', ''a'']" by code_simp
  then show ?thesis
    by (simp add: rangeOrder_id oauthRequest_beta_header example_cfg_def)
qed

text \<open>
  Claim C1, amended. When the request carries a non-empty \<open>anthropic-beta\<close> value and the
  configuration has at least one flag, the header the middleware sets is the comma-join of
  a list without duplicates whose elements are exactly the trimmed pieces of the existing
  value and the flags, in whatever order the runtime walks the map. When no flag contains a
  comma, splitting the new header at commas gives that list back, so every token stands in
  the header exactly once.
\<close>

theorem merge_tokens_once:
  assumes "rangeOrder iter" and "Betas cfg \<noteq> []" and "Header_Get (Header r) ''anthropic-beta'' \<noteq> []"
  shows "\<exists>ks. Header_Get (Header (oauthRequest cfg iter r)) ''anthropic-beta'' = Join ks '','' \<and>
      distinct ks \<and>
      set ks = TrimSpace ` set (Split (Header_Get (Header r) ''anthropic-beta'') CHR '','') \<union>
               set (Betas cfg) \<and>
      ((\<forall>f\<in>set (Betas cfg). CHR '','' \<notin> set f) \<longrightarrow>
         Split (Header_Get (Header (oauthRequest cfg iter r)) ''anthropic-beta'') CHR '','' = ks)"
  using merged_header [OF assms(1) assms(2) refl assms(3)] by blast

theorem merge_tokens_once_witness:
  "rangeOrder rev \<and> Betas (example_cfg [''b'', ''c'', ''b'']) \<noteq> [] \<and>
   Header_Get (Header (example_request ''a, b,a'')) ''anthropic-beta'' \<noteq> [] \<and>
   (\<exists>ks. Header_Get (Header (oauthRequest (example_cfg [''b'', ''c'', ''b'']) rev
                                (example_request ''a, b,a''))) ''anthropic-beta'' = Join ks '','' \<and>
      distinct ks \<and>
      set ks = TrimSpace ` set (Split (Header_Get (Header (example_request ''a, b,a''))
                 ''anthropic-beta'') CHR '','') \<union> set (Betas (example_cfg [''b'', ''c'', ''b''])) \<and>
      ((\<forall>f\<in>set (Betas (example_cfg [''b'', ''c'', ''b''])). CHR '','' \<notin> set f) \<longrightarrow>
         Split (Header_Get (Header (oauthRequest (example_cfg [''b'', ''c'', ''b'']) rev
                                      (example_request ''a, b,a''))) ''anthropic-beta'') CHR '','' = ks))"
proof -
  have 1: "rangeOrder rev" by (rule rangeOrder_rev)
  have 2: "Betas (example_cfg [''b'', ''c'', ''b'']) \<noteq> []" by (simp add: example_cfg_def)
  have 3: "Header_Get (Header (example_request ''a, b,a'')) ''anthropic-beta'' \<noteq> []" by simp
  from merge_tokens_once [OF 1 2 3] 1 2 3 show ?thesis by blast
qed

text \<open>
  Claim C7. A piece of the existing header value that is empty after trimming (an empty
  piece, or one of white space only) is not filtered out: the keys of the map are exactly
  the trimmed pieces and the flags, the empty string is one of them, and it is visited once.
  When no flag contains a comma, the new header split at commas holds the empty token
  exactly once.
\<close>

theorem blank_tokens_kept:
  assumes "rangeOrder iter" and "Betas cfg \<noteq> []"
    and "Header_Get (Header r) ''anthropic-beta'' \<noteq> []"
    and "t \<in> set (Split (Header_Get (Header r) ''anthropic-beta'') CHR '','')"
    and "TrimSpace t = []"
  shows "\<exists>ks. Header_Get (Header (oauthRequest cfg iter r)) ''anthropic-beta'' = Join ks '','' \<and>
      count_list ks [] = 1 \<and>
      set ks = TrimSpace ` set (Split (Header_Get (Header r) ''anthropic-beta'') CHR '','') \<union>
               set (Betas cfg) \<and>
      ((\<forall>f\<in>set (Betas cfg). CHR '','' \<notin> set f) \<longrightarrow>
         count_list (Split (Header_Get (Header (oauthRequest cfg iter r)) ''anthropic-beta'') CHR '','') [] = 1)"
proof -
  from merged_header [OF assms(1) assms(2) refl assms(3)]
  obtain ks where ks: "Header_Get (Header (oauthRequest cfg iter r)) ''anthropic-beta'' = Join ks '',''"
    "distinct ks"
    "set ks = TrimSpace ` set (Split (Header_Get (Header r) ''anthropic-beta'') CHR '','') \<union>
               set (Betas cfg)"
    "(\<forall>f\<in>set (Betas cfg). CHR '','' \<notin> set f) \<longrightarrow>
         Split (Header_Get (Header (oauthRequest cfg iter r)) ''anthropic-beta'') CHR '','' = ks"
    by blast
  have "TrimSpace t \<in> TrimSpace ` set (Split (Header_Get (Header r) ''anthropic-beta'') CHR '','')"
    using assms(4) by (rule imageI)
  then have "[] \<in> set ks" using ks(3) assms(5) by simp
  then have "count (mset ks) [] = 1" using ks(2) by (simp add: distinct_count_atmost_1)
  then have "count_list ks [] = 1" by (simp add: count_mset)
  with ks show ?thesis by auto
qed

theorem blank_tokens_kept_witness:
  "rangeOrder rev \<and> Betas (example_cfg [''c'']) \<noteq> [] \<and>
   Header_Get (Header (example_request ''a, ,,b'')) ''anthropic-beta'' \<noteq> [] \<and>
   '' '' \<in> set (Split (Header_Get (Header (example_request ''a, ,,b'')) ''anthropic-beta'') CHR '','') \<and>
   TrimSpace '' '' = [] \<and>
   Header_Get (Header (oauthRequest (example_cfg [''c'']) rev (example_request ''a, ,,b'')))
     ''anthropic-beta'' = ''c,b,,a'' \<and>
   (\<exists>ks. Header_Get (Header (oauthRequest (example_cfg [''c'']) rev (example_request ''a, ,,b'')))
            ''anthropic-beta'' = Join ks '','' \<and>
      count_list ks [] = 1 \<and>
      set ks = TrimSpace ` set (Split (Header_Get (Header (example_request ''a, ,,b''))
                 ''anthropic-beta'') CHR '','') \<union> set (Betas (example_cfg [''c''])) \<and>
      ((\<forall>f\<in>set (Betas (example_cfg [''c''])). CHR '','' \<notin> set f) \<longrightarrow>
         count_list (Split (Header_Get (Header (oauthRequest (example_cfg [''c'']) rev
            (example_request ''a, ,,b''))) ''anthropic-beta'') CHR '','') [] = 1))"
proof -
  have 1: "rangeOrder rev" by (rule rangeOrder_rev)
  have 2: "Betas (example_cfg [''c'']) \<noteq> []" by (simp add: example_cfg_def)
  have 3: "Header_Get (Header (example_request ''a, ,,b'')) ''anthropic-beta'' \<noteq> []" by simp
  have "Split ''a, ,,b'' CHR '','' = [''a'', '' '', [], ''b'']" by code_simp
  then have 4: "'' '' \<in> set (Split (Header_Get (Header (example_request ''a, ,,b''))
      ''anthropic-beta'') CHR '','')" by simp
  have 5: "TrimSpace '' '' = []" by code_simp
  have "betaSet ''a, ,,b'' [''c''] = [''a'', [], ''b'', ''c'']" by code_simp
  then have 6: "Header_Get (Header (oauthRequest (example_cfg [''c'']) rev (example_request ''a, ,,b'')))
     ''anthropic-beta'' = ''c,b,,a''"
    by (simp add: oauthRequest_beta_header example_cfg_def)
  from blank_tokens_kept [OF 1 2 3 4 5] 1 2 3 4 5 6 show ?thesis by blast
qed

text \<open>
  Claim C10. The pieces of the existing header are trimmed before they become keys, the
  flags of the configuration are keys as they are. So when a flag \<open>f\<close> carries white space
  around it and its trimmed form is a token of the existing header, the new header is the
  join of a list that holds both \<open>f\<close> and \<open>TrimSpace f\<close>: two different tokens that are
  equal after trimming.
\<close>

theorem untrimmed_flag_kept_beside_trimmed_token:
  assumes "rangeOrder iter" and "Header_Get (Header r) ''anthropic-beta'' \<noteq> []"
    and "f \<in> set (Betas cfg)" and "TrimSpace f \<noteq> f"
    and "t \<in> set (Split (Header_Get (Header r) ''anthropic-beta'') CHR '','')"
    and "TrimSpace t = TrimSpace f"
  shows "\<exists>ks. Header_Get (Header (oauthRequest cfg iter r)) ''anthropic-beta'' = Join ks '','' \<and>
      set ks = TrimSpace ` set (Split (Header_Get (Header r) ''anthropic-beta'') CHR '','') \<union>
               set (Betas cfg) \<and>
      f \<in> set ks \<and> TrimSpace f \<in> set ks \<and> f \<noteq> TrimSpace f \<and>
      TrimSpace f = TrimSpace (TrimSpace f) \<and>
      ((\<forall>f\<in>set (Betas cfg). CHR '','' \<notin> set f) \<longrightarrow>
         Split (Header_Get (Header (oauthRequest cfg iter r)) ''anthropic-beta'') CHR '','' = ks)"
proof -
  from assms(3) have b: "Betas cfg \<noteq> []" by auto
  from merged_header [OF assms(1) b refl assms(2)]
  obtain ks where ks: "Header_Get (Header (oauthRequest cfg iter r)) ''anthropic-beta'' = Join ks '',''"
    "set ks = TrimSpace ` set (Split (Header_Get (Header r) ''anthropic-beta'') CHR '','') \<union>
               set (Betas cfg)"
    "(\<forall>f\<in>set (Betas cfg). CHR '','' \<notin> set f) \<longrightarrow>
         Split (Header_Get (Header (oauthRequest cfg iter r)) ''anthropic-beta'') CHR '','' = ks"
    by blast
  have "f \<in> set ks" using ks(2) assms(3) by simp
  moreover have "TrimSpace t \<in> TrimSpace ` set (Split (Header_Get (Header r) ''anthropic-beta'') CHR '','')"
    using assms(5) by (rule imageI)
  then have "TrimSpace f \<in> set ks" using ks(2) assms(6) by simp
  ultimately show ?thesis using ks assms(4) by (auto simp: TrimSpace_idem)
qed

theorem untrimmed_flag_kept_beside_trimmed_token_witness:
  "rangeOrder rev \<and> Header_Get (Header (example_request ''a'')) ''anthropic-beta'' \<noteq> [] \<and>
   '' a'' \<in> set (Betas (example_cfg ['' a''])) \<and> TrimSpace '' a'' \<noteq> '' a'' \<and>
   ''a'' \<in> set (Split (Header_Get (Header (example_request ''a'')) ''anthropic-beta'') CHR '','') \<and>
   TrimSpace ''a'' = TrimSpace '' a'' \<and>
   Header_Get (Header (oauthRequest (example_cfg ['' a'']) rev (example_request ''a'')))
     ''anthropic-beta'' = '' a,a'' \<and>
   Split '' a,a'' CHR '','' = ['' a'', ''a'']"
proof -
  have 1: "rangeOrder rev" by (rule rangeOrder_rev)
  have 2: "Header_Get (Header (example_request ''a'')) ''anthropic-beta'' \<noteq> []" by simp
  have 3: "'' a'' \<in> set (Betas (example_cfg ['' a'']))" by (simp add: example_cfg_def)
  have ta: "TrimSpace '' a'' = ''a''" by code_simp
  then have 4: "TrimSpace '' a'' \<noteq> '' a''" by simp
  have "Split ''a'' CHR '','' = [''a'']" by code_simp
  then have 5: "''a'' \<in> set (Split (Header_Get (Header (example_request ''a'')) ''anthropic-beta'') CHR '','')"
    by simp
  have "TrimSpace ''a'' = ''a''" by code_simp
  with ta have 6: "TrimSpace ''a'' = TrimSpace '' a''" by simp
  have 7: "Split '' a,a'' CHR '','' = ['' a'', ''a'']" by code_simp
  from untrimmed_flag_kept_beside_trimmed_token [OF 1 2 3 4 5 6]
  obtain ks where ks: "Header_Get (Header (oauthRequest (example_cfg ['' a'']) rev (example_request ''a'')))
     ''anthropic-beta'' = Join ks '','' "
    by blast
  have "betaSet ''a'' ['' a''] = [''a'', '' a'']" by code_simp
  then have 8: "Header_Get (Header (oauthRequest (example_cfg ['' a'']) rev (example_request ''a'')))
     ''anthropic-beta'' = '' a,a''"
    by (simp add: oauthRequest_beta_header example_cfg_def)
  from ks 1 2 3 4 5 6 7 8 show ?thesis by blast
qed

section \<open>Merging twice\<close>

lemma beta_tokens_step:
  assumes "rangeOrder iter" and "Betas cfg \<noteq> []"
  shows "headerTokens (Header_Get (Header (oauthRequest cfg iter r)) ''anthropic-beta'') =
     (if Header_Get (Header r) ''anthropic-beta'' = [] then (\<Union>f\<in>set (Betas cfg). headerTokens f)
      else headerTokens (Header_Get (Header r) ''anthropic-beta'') \<union>
           (\<Union>f\<in>set (Betas cfg). headerTokens f))"
proof (cases "Header_Get (Header r) ''anthropic-beta'' = []")
  case True
  then show ?thesis using assms(2) by (simp add: oauthRequest_beta_header headerTokens_Join)
next
  case False
  let ?e = "Header_Get (Header r) ''anthropic-beta''"
  let ?ks = "iter (betaSet ?e (Betas cfg))"
  note k = merged_keys [OF assms(1), of ?e "Betas cfg"]
  have "headerTokens (Header_Get (Header (oauthRequest cfg iter r)) ''anthropic-beta'') =
      (\<Union>k\<in>set ?ks. headerTokens k)"
    using False assms(2) k(3) by (simp add: oauthRequest_beta_header headerTokens_Join)
  also have "\<dots> = (\<Union>k\<in>headerTokens ?e. headerTokens k) \<union> (\<Union>f\<in>set (Betas cfg). headerTokens f)"
    using k(2) by (simp add: headerTokens_def)
  also have "(\<Union>k\<in>headerTokens ?e. headerTokens k) = headerTokens ?e"
    by (auto simp: headerTokens_token)
  finally show ?thesis using False by simp
qed

lemma beta_tokens_idem:
  assumes "rangeOrder iter1" and "rangeOrder iter2"
  shows "headerTokens (Header_Get (Header (oauthRequest cfg iter2 (oauthRequest cfg iter1 r)))
           ''anthropic-beta'') =
         headerTokens (Header_Get (Header (oauthRequest cfg iter1 r)) ''anthropic-beta'')"
proof (cases "Betas cfg = []")
  case True
  then show ?thesis by (simp add: oauthRequest_beta_header)
next
  case False
  let ?TF = "\<Union>f\<in>set (Betas cfg). headerTokens f"
  let ?h1 = "Header_Get (Header (oauthRequest cfg iter1 r)) ''anthropic-beta''"
  have sub: "?TF \<subseteq> headerTokens ?h1"
    using beta_tokens_step [OF assms(1) False, of r] by auto
  show ?thesis
  proof (cases "?h1 = []")
    case h1: False
    then show ?thesis using beta_tokens_step [OF assms(2) False, of "oauthRequest cfg iter1 r"] sub
      by auto
  next
    case h1: True
    have "headerTokens ?h1 = {[]}"
      unfolding h1 by (simp add: headerTokens_def Split_no_sep TrimSpace_Nil)
    moreover have "?TF \<noteq> {}" using False headerTokens_nonempty by (cases "Betas cfg") auto
    ultimately have "?TF = headerTokens ?h1" using sub by auto
    then show ?thesis using beta_tokens_step [OF assms(2) False, of "oauthRequest cfg iter1 r"] h1
      by simp
  qed
qed

lemma pieces_trimmed:
  assumes "rangeOrder iter" and "Betas cfg \<noteq> []"
    and "\<forall>f\<in>set (Betas cfg). CHR '','' \<notin> set f \<and> TrimSpace f = f"
  shows "set (Split (Header_Get (Header (oauthRequest cfg iter r)) ''anthropic-beta'') CHR '','') =
         headerTokens (Header_Get (Header (oauthRequest cfg iter r)) ''anthropic-beta'')"
proof -
  let ?h = "Header_Get (Header (oauthRequest cfg iter r)) ''anthropic-beta''"
  have "\<forall>p\<in>set (Split ?h CHR '',''). TrimSpace p = p"
  proof (cases "Header_Get (Header r) ''anthropic-beta'' = []")
    case True
    then have "Split ?h CHR '','' = Betas cfg"
      using assms(2,3) by (simp add: oauthRequest_beta_header Split_Join_sep_free)
    then show ?thesis using assms(3) by simp
  next
    case False
    from merged_header [OF assms(1) assms(2) refl False] assms(3)
    obtain ks where ks: "Split ?h CHR '','' = ks"
      "set ks = TrimSpace ` set (Split (Header_Get (Header r) ''anthropic-beta'') CHR '','') \<union>
                set (Betas cfg)"
      by blast
    show ?thesis unfolding ks(1)
    proof
      fix p assume "p \<in> set ks"
      then show "TrimSpace p = p" using ks(2) assms(3) by (auto simp: TrimSpace_idem)
    qed
  qed
  then have "TrimSpace ` set (Split ?h CHR '','') = set (Split ?h CHR '','')"
    by (auto simp: image_iff)
  then show ?thesis by (simp add: headerTokens_def)
qed

text \<open>
  Claim C6, as stated, fails when a flag carries white space: with the existing header
  \<open>a\<close> and the flag \<open>" c"\<close> the first merge gives \<open>a, c\<close>, with the tokens \<open>a\<close> and
  \<open>" c"\<close>; merging the same flag into that header gives \<open>a,c, c\<close>, which has the
  further token \<open>c\<close>.
\<close>

theorem second_merge_counterexample:
  "rangeOrder (\<lambda>ks. ks) \<and>
   betaSet ''a'' ['' c''] = [''a'', '' c''] \<and>
   betaSet ''a, c'' ['' c''] = [''a'', ''c'', '' c''] \<and>
   Header_Get (Header (oauthRequest (example_cfg ['' c'']) (\<lambda>ks. ks) (example_request ''a'')))
     ''anthropic-beta'' = ''a, c'' \<and>
   Header_Get (Header (oauthRequest (example_cfg ['' c'']) (\<lambda>ks. ks)
     (oauthRequest (example_cfg ['' c'']) (\<lambda>ks. ks) (example_request ''a''))))
     ''anthropic-beta'' = ''a,c, c'' \<and>
   Split ''a, c'' CHR '','' = [''a'', '' c''] \<and>
   Split ''a,c, c'' CHR '','' = [''a'', ''c'', '' c''] \<and>
   set (Split ''a,c, c'' CHR '','') \<noteq> set (Split ''a, c'' CHR '','')"
proof -
  have k1: "betaSet ''a'' ['' c''] = [''a'', '' c'']" by code_simp
  then have 1: "Header_Get (Header (oauthRequest (example_cfg ['' c'']) (\<lambda>ks. ks) (example_request ''a'')))
     ''anthropic-beta'' = ''a, c''"
    by (simp add: oauthRequest_beta_header example_cfg_def)
  have k2: "betaSet ''a, c'' ['' c''] = [''a'', ''c'', '' c'']" by code_simp
  with 1 have 2: "Header_Get (Header (oauthRequest (example_cfg ['' c'']) (\<lambda>ks. ks)
     (oauthRequest (example_cfg ['' c'']) (\<lambda>ks. ks) (example_request ''a''))))
     ''anthropic-beta'' = ''a,c, c''"
    by (simp add: oauthRequest_beta_header [of _ "\<lambda>ks. ks"] example_cfg_def)
  have 3: "Split ''a, c'' CHR '','' = [''a'', '' c'']" by code_simp
  have 4: "Split ''a,c, c'' CHR '','' = [''a'', ''c'', '' c'']" by code_simp
  have "''c'' \<in> set [''a'', ''c'', '' c'']" by simp
  moreover have "''c'' \<notin> set [''a'', '' c'']" by simp
  ultimately have ne: "set [''a'', ''c'', '' c''] \<noteq> set [''a'', '' c'']" by metis
  have 5: "set (Split ''a,c, c'' CHR '','') \<noteq> set (Split ''a, c'' CHR '','')"
    unfolding 3 4 by (rule ne)
  show ?thesis
    by (intro conjI) (rule rangeOrder_id k1 k2 1 2 3 4 5)+
qed

text \<open>
  Claim C6, amended. Merging the flags of the same configuration into the result of a
  first merge leaves the tokens of the header unchanged when they are read as the
  middleware reads a header, split at commas and trimmed. When no flag contains a comma
  or carries white space around it, the pieces of the header split at commas are
  unchanged as well.
\<close>

theorem merge_idempotent:
  assumes "rangeOrder iter1" and "rangeOrder iter2"
  shows "headerTokens (Header_Get (Header (oauthRequest cfg iter2 (oauthRequest cfg iter1 r)))
           ''anthropic-beta'') =
         headerTokens (Header_Get (Header (oauthRequest cfg iter1 r)) ''anthropic-beta'') \<and>
         ((\<forall>f\<in>set (Betas cfg). CHR '','' \<notin> set f \<and> TrimSpace f = f) \<longrightarrow>
          set (Split (Header_Get (Header (oauthRequest cfg iter2 (oauthRequest cfg iter1 r)))
                 ''anthropic-beta'') CHR '','') =
          set (Split (Header_Get (Header (oauthRequest cfg iter1 r)) ''anthropic-beta'') CHR '',''))"
proof (cases "Betas cfg = []")
  case True
  then show ?thesis by (simp add: oauthRequest_beta_header)
next
  case False
  show ?thesis
    using beta_tokens_idem [OF assms] pieces_trimmed [OF assms(1) False]
      pieces_trimmed [OF assms(2) False] by simp
qed

theorem merge_idempotent_witness:
  "rangeOrder rev \<and> rangeOrder (\<lambda>ks. ks) \<and>
   Betas (example_cfg [''b'', ''c'']) = [''b'', ''c''] \<and>
   CHR '','' \<notin> set ''b'' \<and> TrimSpace ''b'' = ''b'' \<and>
   CHR '','' \<notin> set ''c'' \<and> TrimSpace ''c'' = ''c'' \<and>
   Header_Get (Header (oauthRequest (example_cfg [''b'', ''c'']) rev (example_request ''a, b'')))
     ''anthropic-beta'' = ''c,b,a'' \<and>
   Header_Get (Header (oauthRequest (example_cfg [''b'', ''c'']) (\<lambda>ks. ks)
     (oauthRequest (example_cfg [''b'', ''c'']) rev (example_request ''a, b''))))
     ''anthropic-beta'' = ''c,b,a'' \<and>
   headerTokens ''c,b,a'' = headerTokens ''c,b,a'' \<and>
   set (Split ''c,b,a'' CHR '','') = set (Split ''c,b,a'' CHR '','')"
proof -
  have 1: "rangeOrder rev" by (rule rangeOrder_rev)
  have 2: "rangeOrder (\<lambda>ks. ks)" by (rule rangeOrder_id)
  have t: "TrimSpace ''b'' = ''b''" "TrimSpace ''c'' = ''c''" by code_simp+
  then have 0: "\<forall>f\<in>set (Betas (example_cfg [''b'', ''c''])). CHR '','' \<notin> set f \<and> TrimSpace f = f"
    by (simp add: example_cfg_def)
  have b: "Betas (example_cfg [''b'', ''c'']) = [''b'', ''c'']" by (simp add: example_cfg_def)
  have "betaSet ''a, b'' [''b'', ''c''] = [''a'', ''b'', ''c'']" by code_simp
  then have 3: "Header_Get (Header (oauthRequest (example_cfg [''b'', ''c'']) rev (example_request ''a, b'')))
     ''anthropic-beta'' = ''c,b,a''"
    by (simp add: oauthRequest_beta_header example_cfg_def)
  have "betaSet ''c,b,a'' [''b'', ''c''] = [''c'', ''b'', ''a'']" by code_simp
  with 3 have 4: "Header_Get (Header (oauthRequest (example_cfg [''b'', ''c'']) (\<lambda>ks. ks)
     (oauthRequest (example_cfg [''b'', ''c'']) rev (example_request ''a, b''))))
     ''anthropic-beta'' = ''c,b,a''"
    by (simp add: oauthRequest_beta_header [of _ "\<lambda>ks. ks"] example_cfg_def)
  from merge_idempotent [OF 1 2, of "example_cfg [''b'', ''c'']" "example_request ''a, b''"] 0 1 2 3 4 t b
  show ?thesis by simp
qed

section \<open>The successor\<close>

text \<open>
  Claim C9. The middleware hands the request, as it has changed it, to its successor and
  returns what this call returns: the same result and the same world after it. A
  successor that records its calls has been called once more, with that request.
\<close>

theorem successor_called_once:
  "oauthMiddleware cfg iter r next w = next (oauthRequest cfg iter r) w \<and>
   oauthMiddleware cfg iter r (recording next) (calls, w) =
     (fst (next (oauthRequest cfg iter r) w),
      (calls @ [oauthRequest cfg iter r], snd (next (oauthRequest cfg iter r) w)))"
  by (simp add: oauthMiddleware_def recording_def split: prod.split)

section \<open>Building the configuration\<close>

lemma WithConfig_default:
  "Betas cfg = [] \<Longrightarrow> WithConfig iter cfg = WithConfig iter (cfg\<lparr>Betas := DefaultOAuthBetas\<rparr>)"
  by (simp add: WithConfig_def WithConfig_cfg_def DefaultOAuthBetas_def)

lemma WithConfig_applied:
  "WithConfig iter cfg rc =
     Inr (rc\<lparr>Request := (Request rc)\<lparr>Header :=
                Header_Set (Header (Request rc)) ''Authorization'' (''Bearer '' @ AccessToken cfg)\<rparr>,
              Middlewares := Middlewares rc @ [oauthMiddleware (WithConfig_cfg cfg) iter]\<rparr>)"
proof -
  have "AccessToken (WithConfig_cfg cfg) = AccessToken cfg"
    by (simp add: WithConfig_cfg_def)
  then show ?thesis
    by (simp add: WithConfig_def Let_def WithAuthToken_def WithMiddleware_def)
qed

lemma Execute_WithConfig_beta:
  assumes "Middlewares rc = []" and "Header_Get (Header (Request rc)) ''anthropic-beta'' = []"
    and "Betas cfg = []"
  shows "Execute (projr (WithConfig iter cfg rc)) betaSeen w =
     (''oauth-2025-04-20,interleaved-thinking-2025-05-14,claude-code-20250219,fine-grained-tool-streaming-2025-05-14'', w)"
proof -
  let ?r = "(Request rc)\<lparr>Header :=
      Header_Set (Header (Request rc)) ''Authorization'' (''Bearer '' @ AccessToken cfg)\<rparr>"
  have b: "Header_Get (Header ?r) ''anthropic-beta'' = []"
    using assms(2) by (simp add: Header_Get_Set_other canon_beta canon_authorization)
  have "Execute (projr (WithConfig iter cfg rc)) betaSeen w =
      (Header_Get (Header (oauthRequest (WithConfig_cfg cfg) iter ?r)) ''anthropic-beta'', w)"
    using assms(1) by (simp add: WithConfig_applied Execute_def oauthMiddleware_def betaSeen_def)
  also have "Header_Get (Header (oauthRequest (WithConfig_cfg cfg) iter ?r)) ''anthropic-beta'' =
      Join DefaultOAuthBetas '',''"
    using b assms(3) by (simp add: oauthRequest_beta_header WithConfig_cfg_def DefaultOAuthBetas_def)
  finally show ?thesis by (simp add: DefaultOAuthBetas_def)
qed

text \<open>
  Claim C3. \<open>DefaultOAuthBetas\<close> is the list of the four flags in the order stated.
  \<open>WithConfig\<close> with no flags captures this list and is the option that \<open>WithConfig\<close>
  gives for it; \<open>WithAccessToken\<close> and \<open>WithLoadEnv\<close> are \<open>WithConfig\<close> for this list; on
  a request without an \<open>anthropic-beta\<close> value the middleware then sets the four flags
  joined in this order. Applied to a request configuration, \<open>WithConfig\<close> with no flags
  adds to the chain the middleware of the configuration with this list; and for each of
  the three options, applied to a configuration with an empty chain and no
  \<open>anthropic-beta\<close> value, the request that reaches the terminal send step carries the
  four flags joined in this order.
\<close>

theorem default_betas:
  "DefaultOAuthBetas =
     [''oauth-2025-04-20'', ''interleaved-thinking-2025-05-14'', ''claude-code-20250219'',
      ''fine-grained-tool-streaming-2025-05-14''] \<and>
   length DefaultOAuthBetas = 4 \<and>
   (Betas cfg = [] \<longrightarrow>
      Betas (WithConfig_cfg cfg) = DefaultOAuthBetas \<and>
      (WithConfig iter cfg :: ('w, 'a) RequestOption) =
        WithConfig iter (cfg\<lparr>Betas := DefaultOAuthBetas\<rparr>)) \<and>
   (WithAccessToken iter accessToken :: ('w, 'a) RequestOption) =
     WithConfig iter \<lparr>AccessToken = accessToken, RefreshToken = [], Betas = DefaultOAuthBetas,
       UserAgent = [], UseBetaEndpoint = False\<rparr> \<and>
   (WithLoadEnv iter env :: ('w, 'a) RequestOption) =
     WithConfig iter \<lparr>AccessToken = WithLoadEnv_accessToken env, RefreshToken = [],
       Betas = DefaultOAuthBetas, UserAgent = [], UseBetaEndpoint = False\<rparr> \<and>
   (Betas cfg = [] \<and> Header_Get (Header r) ''anthropic-beta'' = [] \<longrightarrow>
      Header_Get (Header (oauthRequest (WithConfig_cfg cfg) iter r)) ''anthropic-beta'' =
        ''oauth-2025-04-20,interleaved-thinking-2025-05-14,claude-code-20250219,fine-grained-tool-streaming-2025-05-14'') \<and>
   (Betas cfg = [] \<longrightarrow>
      WithConfig iter cfg (rc :: ('w, 'a) RequestConfig) =
        Inr (rc\<lparr>Request := (Request rc)\<lparr>Header :=
                   Header_Set (Header (Request rc)) ''Authorization'' (''Bearer '' @ AccessToken cfg)\<rparr>,
                 Middlewares := Middlewares rc @
                   [oauthMiddleware (cfg\<lparr>Betas := DefaultOAuthBetas\<rparr>) iter]\<rparr>)) \<and>
   (Middlewares sc = [] \<and> Header_Get (Header (Request sc)) ''anthropic-beta'' = [] \<longrightarrow>
      (Betas cfg = [] \<longrightarrow>
         Execute (projr (WithConfig iter cfg sc)) betaSeen (w :: 'v) =
           (''oauth-2025-04-20,interleaved-thinking-2025-05-14,claude-code-20250219,fine-grained-tool-streaming-2025-05-14'', w)) \<and>
      Execute (projr (WithAccessToken iter accessToken sc)) betaSeen w =
        (''oauth-2025-04-20,interleaved-thinking-2025-05-14,claude-code-20250219,fine-grained-tool-streaming-2025-05-14'', w) \<and>
      Execute (projr (WithLoadEnv iter env sc)) betaSeen w =
        (''oauth-2025-04-20,interleaved-thinking-2025-05-14,claude-code-20250219,fine-grained-tool-streaming-2025-05-14'', w))"
proof (intro conjI impI)
  show "DefaultOAuthBetas =
     [''oauth-2025-04-20'', ''interleaved-thinking-2025-05-14'', ''claude-code-20250219'',
      ''fine-grained-tool-streaming-2025-05-14'']"
    by (simp add: DefaultOAuthBetas_def)
  show "length DefaultOAuthBetas = 4" by (simp add: DefaultOAuthBetas_def)
  show "Betas (WithConfig_cfg cfg) = DefaultOAuthBetas" if "Betas cfg = []"
    using that by (simp add: WithConfig_cfg_def)
  show "(WithConfig iter cfg :: ('w, 'a) RequestOption) =
        WithConfig iter (cfg\<lparr>Betas := DefaultOAuthBetas\<rparr>)" if "Betas cfg = []"
    using that by (rule WithConfig_default)
  show "(WithAccessToken iter accessToken :: ('w, 'a) RequestOption) =
     WithConfig iter \<lparr>AccessToken = accessToken, RefreshToken = [], Betas = DefaultOAuthBetas,
       UserAgent = [], UseBetaEndpoint = False\<rparr>"
    unfolding WithAccessToken_def by (subst WithConfig_default) simp_all
  show "(WithLoadEnv iter env :: ('w, 'a) RequestOption) =
     WithConfig iter \<lparr>AccessToken = WithLoadEnv_accessToken env, RefreshToken = [],
       Betas = DefaultOAuthBetas, UserAgent = [], UseBetaEndpoint = False\<rparr>"
    unfolding WithLoadEnv_def by (subst WithConfig_default) simp_all
  show "Header_Get (Header (oauthRequest (WithConfig_cfg cfg) iter r)) ''anthropic-beta'' =
        ''oauth-2025-04-20,interleaved-thinking-2025-05-14,claude-code-20250219,fine-grained-tool-streaming-2025-05-14''"
    if "Betas cfg = [] \<and> Header_Get (Header r) ''anthropic-beta'' = []"
    using that by (simp add: oauthRequest_beta_header WithConfig_cfg_def DefaultOAuthBetas_def)
  show "WithConfig iter cfg rc =
        Inr (rc\<lparr>Request := (Request rc)\<lparr>Header :=
                   Header_Set (Header (Request rc)) ''Authorization'' (''Bearer '' @ AccessToken cfg)\<rparr>,
                 Middlewares := Middlewares rc @
                   [oauthMiddleware (cfg\<lparr>Betas := DefaultOAuthBetas\<rparr>) iter]\<rparr>)"
    if "Betas cfg = []"
  proof -
    have "WithConfig_cfg cfg = cfg\<lparr>Betas := DefaultOAuthBetas\<rparr>"
      using that by (simp add: WithConfig_cfg_def)
    then show ?thesis by (simp add: WithConfig_applied)
  qed
next
  assume sc: "Middlewares sc = [] \<and> Header_Get (Header (Request sc)) ''anthropic-beta'' = []"
  show "Execute (projr (WithConfig iter cfg sc)) betaSeen w =
      (''oauth-2025-04-20,interleaved-thinking-2025-05-14,claude-code-20250219,fine-grained-tool-streaming-2025-05-14'', w)"
    if "Betas cfg = []"
    using sc that by (simp add: Execute_WithConfig_beta)
  show "Execute (projr (WithAccessToken iter accessToken sc)) betaSeen w =
      (''oauth-2025-04-20,interleaved-thinking-2025-05-14,claude-code-20250219,fine-grained-tool-streaming-2025-05-14'', w)"
    unfolding WithAccessToken_def using sc by (simp add: Execute_WithConfig_beta)
  show "Execute (projr (WithLoadEnv iter env sc)) betaSeen w =
      (''oauth-2025-04-20,interleaved-thinking-2025-05-14,claude-code-20250219,fine-grained-tool-streaming-2025-05-14'', w)"
    unfolding WithLoadEnv_def using sc by (simp add: Execute_WithConfig_beta)
qed

theorem default_betas_witness:
  "Betas (example_cfg []) = [] \<and>
   Middlewares (example_rc Map.empty :: (unit, string) RequestConfig) = [] \<and>
   Header_Get (Header (Request (example_rc Map.empty :: (unit, string) RequestConfig)))
     ''anthropic-beta'' = [] \<and>
   Header_Get (Header (example_request [])) ''anthropic-beta'' = [] \<and>
   Betas (WithConfig_cfg (example_cfg [])) =
     [''oauth-2025-04-20'', ''interleaved-thinking-2025-05-14'', ''claude-code-20250219'',
      ''fine-grained-tool-streaming-2025-05-14''] \<and>
   Execute (projr (WithConfig rev (example_cfg []) (example_rc Map.empty))) betaSeen () =
     (''oauth-2025-04-20,interleaved-thinking-2025-05-14,claude-code-20250219,fine-grained-tool-streaming-2025-05-14'', ()) \<and>
   Execute (projr (WithAccessToken rev ''T'' (example_rc Map.empty))) betaSeen () =
     (''oauth-2025-04-20,interleaved-thinking-2025-05-14,claude-code-20250219,fine-grained-tool-streaming-2025-05-14'', ()) \<and>
   Execute (projr (WithLoadEnv rev [''ANTHROPIC_ACCESS_TOKEN'' \<mapsto> ''E''] (example_rc Map.empty)))
     betaSeen () =
     (''oauth-2025-04-20,interleaved-thinking-2025-05-14,claude-code-20250219,fine-grained-tool-streaming-2025-05-14'', ())"
proof -
  have 1: "Betas (example_cfg []) = []" by (simp add: example_cfg_def)
  have 2: "Middlewares (example_rc Map.empty :: (unit, string) RequestConfig) = []"
    by (simp add: example_rc_def)
  have 3: "Header_Get (Header (Request (example_rc Map.empty :: (unit, string) RequestConfig)))
     ''anthropic-beta'' = []"
    by (simp add: example_rc_def Header_Get_def)
  have 4: "Header_Get (Header (example_request [])) ''anthropic-beta'' = []" by simp
  from default_betas [where ?'w = unit and ?'a = string and ?'v = unit and cfg = "example_cfg []"
      and iter = rev and r = "example_request []" and accessToken = "''T''"
      and env = "[''ANTHROPIC_ACCESS_TOKEN'' \<mapsto> ''E'']" and rc = "example_rc Map.empty"
      and sc = "example_rc Map.empty" and w = "()"] 1 2 3 4
  have 5: "Betas (WithConfig_cfg (example_cfg [])) = DefaultOAuthBetas"
    and 6: "Execute (projr (WithConfig rev (example_cfg []) (example_rc Map.empty))) betaSeen () =
     (''oauth-2025-04-20,interleaved-thinking-2025-05-14,claude-code-20250219,fine-grained-tool-streaming-2025-05-14'', ())"
    and 7: "Execute (projr (WithAccessToken rev ''T'' (example_rc Map.empty))) betaSeen () =
     (''oauth-2025-04-20,interleaved-thinking-2025-05-14,claude-code-20250219,fine-grained-tool-streaming-2025-05-14'', ())"
    and 8: "Execute (projr (WithLoadEnv rev [''ANTHROPIC_ACCESS_TOKEN'' \<mapsto> ''E''] (example_rc Map.empty)))
     betaSeen () =
     (''oauth-2025-04-20,interleaved-thinking-2025-05-14,claude-code-20250219,fine-grained-tool-streaming-2025-05-14'', ())"
    by blast+
  have 9: "Betas (WithConfig_cfg (example_cfg [])) =
     [''oauth-2025-04-20'', ''interleaved-thinking-2025-05-14'', ''claude-code-20250219'',
      ''fine-grained-tool-streaming-2025-05-14'']"
    using 5 by (simp add: DefaultOAuthBetas_def)
  show ?thesis by (intro conjI) (rule 1 2 3 4 6 7 8 9)+
qed

text \<open>
  Claim C4. The access token that \<open>WithLoadEnv\<close> reads is the value of
  \<open>ANTHROPIC_OAUTH_ACCESS_TOKEN\<close> when that is set and not empty; otherwise the value of
  \<open>ANTHROPIC_ACCESS_TOKEN\<close> when that is set; and the empty string when neither is set or
  both are empty. The option returned is \<open>WithAccessToken\<close> for the token read: the
  environment is read when the option is built and is no part of what is built.
\<close>

theorem load_env_token:
  "(env ''ANTHROPIC_OAUTH_ACCESS_TOKEN'' = Some v \<and> v \<noteq> [] \<longrightarrow> WithLoadEnv_accessToken env = v) \<and>
   ((env ''ANTHROPIC_OAUTH_ACCESS_TOKEN'' = None \<or> env ''ANTHROPIC_OAUTH_ACCESS_TOKEN'' = Some []) \<and>
      env ''ANTHROPIC_ACCESS_TOKEN'' = Some u \<longrightarrow> WithLoadEnv_accessToken env = u) \<and>
   ((env ''ANTHROPIC_OAUTH_ACCESS_TOKEN'' = None \<or> env ''ANTHROPIC_OAUTH_ACCESS_TOKEN'' = Some []) \<and>
      (env ''ANTHROPIC_ACCESS_TOKEN'' = None \<or> env ''ANTHROPIC_ACCESS_TOKEN'' = Some []) \<longrightarrow>
      WithLoadEnv_accessToken env = []) \<and>
   (WithLoadEnv iter env :: ('w, 'a) RequestOption) =
      WithAccessToken iter (WithLoadEnv_accessToken env)"
  by (auto simp: WithLoadEnv_accessToken_def Getenv_def WithLoadEnv_def WithAccessToken_def)

theorem load_env_token_witness:
  "WithLoadEnv_accessToken [''ANTHROPIC_ACCESS_TOKEN'' \<mapsto> ''E''] = ''E'' \<and>
   WithLoadEnv_accessToken
     [''ANTHROPIC_ACCESS_TOKEN'' \<mapsto> ''E'', ''ANTHROPIC_OAUTH_ACCESS_TOKEN'' \<mapsto> ''P''] = ''P'' \<and>
   WithLoadEnv_accessToken Map.empty = []"
proof -
  have "WithLoadEnv_accessToken [''ANTHROPIC_ACCESS_TOKEN'' \<mapsto> ''E''] = ''E''"
    using load_env_token [where ?'w = unit and ?'a = unit and env = "[''ANTHROPIC_ACCESS_TOKEN'' \<mapsto> ''E'']" and u = "''E''"
        and v = "[]" and iter = rev] by simp
  moreover have "WithLoadEnv_accessToken
     [''ANTHROPIC_ACCESS_TOKEN'' \<mapsto> ''E'', ''ANTHROPIC_OAUTH_ACCESS_TOKEN'' \<mapsto> ''P''] = ''P''"
    using load_env_token [where ?'w = unit and ?'a = unit and env = "[''ANTHROPIC_ACCESS_TOKEN'' \<mapsto> ''E'',
      ''ANTHROPIC_OAUTH_ACCESS_TOKEN'' \<mapsto> ''P'']" and v = "''P''" and u = "[]" and iter = rev] by simp
  moreover have "WithLoadEnv_accessToken Map.empty = []"
    using load_env_token [where ?'w = unit and ?'a = unit and env = Map.empty and v = "[]" and u = "[]" and iter = rev] by simp
  ultimately show ?thesis by (intro conjI)
qed

lemma runMiddlewares_append:
  "runMiddlewares (ms @ [m]) send = runMiddlewares ms (\<lambda>r. m r send)"
  by (induction ms) simp_all

lemma authorizationSeen_through:
  "(\<lambda>r. oauthMiddleware cfg iter r authorizationSeen) =
   (authorizationSeen :: ('w, string list option) MiddlewareNext)"
  by (intro ext) (simp add: oauthMiddleware_def authorizationSeen_def oauthRequest_authorization)

lemma oauthRequest_authorization_key:
  "Header (oauthRequest cfg iter r) ''Authorization'' = Header r ''Authorization''"
  using oauthRequest_authorization [of cfg iter r] by (simp add: canon_authorization)

text \<open>
  Claim C2, as stated, fails: \<open>WithConfig\<close> hands the access token to
  \<open>option.WithAuthToken\<close> whatever it is (line 88). With an empty token and a request
  that carries \<open>Authorization: Bearer other\<close>, the request that reaches the terminal send
  step carries \<open>Bearer\<close> followed by a space and nothing else.
\<close>

theorem empty_token_counterexample:
  "AccessToken \<lparr>AccessToken = [], RefreshToken = [], Betas = [], UserAgent = [],
      UseBetaEndpoint = False\<rparr> = [] \<and>
   Execute (example_rc [''Authorization'' \<mapsto> [''Bearer other'']]) authorizationSeen () =
     (Some [''Bearer other''], ()) \<and>
   \<not> isl (WithConfig rev \<lparr>AccessToken = [], RefreshToken = [], Betas = [], UserAgent = [],
      UseBetaEndpoint = False\<rparr> (example_rc [''Authorization'' \<mapsto> [''Bearer other'']]
        :: (unit, string list option) RequestConfig)) \<and>
   Header (Request (projr (WithConfig rev \<lparr>AccessToken = [], RefreshToken = [], Betas = [],
      UserAgent = [], UseBetaEndpoint = False\<rparr> (example_rc [''Authorization'' \<mapsto> [''Bearer other'']]
        :: (unit, string list option) RequestConfig)))) ''Authorization'' = Some [''Bearer ''] \<and>
   Execute (projr (WithConfig rev \<lparr>AccessToken = [], RefreshToken = [], Betas = [], UserAgent = [],
      UseBetaEndpoint = False\<rparr> (example_rc [''Authorization'' \<mapsto> [''Bearer other'']])))
     authorizationSeen () = (Some [''Bearer ''], ())"
  by (simp add: WithConfig_applied Execute_def example_rc_def authorizationSeen_def
      oauthMiddleware_def oauthRequest_authorization_key Header_Set_def canon_authorization)

text \<open>
  Claim C2, amended. For a configuration with an empty access token, applying \<open>WithConfig\<close>
  sets the Authorization header of the request under construction to \<open>Bearer\<close> followed
  by a space, in place of any value it had, and adds the middleware to the chain. The
  middleware itself hands to its successor a request with the Authorization values it
  received, so what reaches the terminal send step is what the units before the
  middleware make of that request.
\<close>

theorem empty_token_sets_bearer:
  assumes "AccessToken cfg = []"
  shows "WithConfig iter cfg rc =
           Inr (rc\<lparr>Request := (Request rc)\<lparr>Header :=
                      Header_Set (Header (Request rc)) ''Authorization'' ''Bearer ''\<rparr>,
                    Middlewares := Middlewares rc @ [oauthMiddleware (WithConfig_cfg cfg) iter]\<rparr>) \<and>
         Header_Get (Header (Request (projr (WithConfig iter cfg rc)))) ''Authorization'' = ''Bearer '' \<and>
         Header (oauthRequest (WithConfig_cfg cfg) iter r) (CanonicalMIMEHeaderKey ''Authorization'') =
           Header r (CanonicalMIMEHeaderKey ''Authorization'') \<and>
         Execute (projr (WithConfig iter cfg rc)) authorizationSeen (w :: 'w) =
           Execute (rc\<lparr>Request := (Request rc)\<lparr>Header :=
                      Header_Set (Header (Request rc)) ''Authorization'' ''Bearer ''\<rparr>\<rparr>)
             authorizationSeen w"
proof (intro conjI)
  show a: "WithConfig iter cfg rc =
      Inr (rc\<lparr>Request := (Request rc)\<lparr>Header :=
                 Header_Set (Header (Request rc)) ''Authorization'' ''Bearer ''\<rparr>,
               Middlewares := Middlewares rc @ [oauthMiddleware (WithConfig_cfg cfg) iter]\<rparr>)"
    using assms by (simp add: WithConfig_applied)
  show "Header_Get (Header (Request (projr (WithConfig iter cfg rc)))) ''Authorization'' = ''Bearer ''"
    by (simp add: a Header_Get_Set_same)
  show "Header (oauthRequest (WithConfig_cfg cfg) iter r) (CanonicalMIMEHeaderKey ''Authorization'') =
      Header r (CanonicalMIMEHeaderKey ''Authorization'')"
    by (rule oauthRequest_authorization)
  show "Execute (projr (WithConfig iter cfg rc)) authorizationSeen w =
      Execute (rc\<lparr>Request := (Request rc)\<lparr>Header :=
                 Header_Set (Header (Request rc)) ''Authorization'' ''Bearer ''\<rparr>\<rparr>)
        authorizationSeen w"
    by (simp add: a Execute_def runMiddlewares_append authorizationSeen_through)
qed

theorem empty_token_sets_bearer_witness:
  "AccessToken \<lparr>AccessToken = [], RefreshToken = [], Betas = [], UserAgent = ''X/1.0'',
      UseBetaEndpoint = True\<rparr> = [] \<and>
   Header_Get (Header (Request (projr (WithConfig rev \<lparr>AccessToken = [], RefreshToken = [],
      Betas = [], UserAgent = ''X/1.0'', UseBetaEndpoint = True\<rparr>
      (example_rc Map.empty :: (unit, string list option) RequestConfig))))) ''Authorization'' =
     ''Bearer '' \<and>
   Execute (projr (WithConfig rev \<lparr>AccessToken = [], RefreshToken = [], Betas = [],
      UserAgent = ''X/1.0'', UseBetaEndpoint = True\<rparr> (example_rc Map.empty)))
     authorizationSeen () = (Some [''Bearer ''], ())"
proof -
  let ?cfg = "\<lparr>AccessToken = [], RefreshToken = [], Betas = [], UserAgent = ''X/1.0'',
      UseBetaEndpoint = True\<rparr>"
  let ?rc = "example_rc Map.empty :: (unit, string list option) RequestConfig"
  have 1: "AccessToken ?cfg = []" by simp
  note t = empty_token_sets_bearer [OF 1, of rev ?rc "example_request []" "()"]
  have 2: "Header_Get (Header (Request (projr (WithConfig rev ?cfg ?rc)))) ''Authorization'' =
      ''Bearer ''"
    using t by blast
  have "Execute (projr (WithConfig rev ?cfg ?rc)) authorizationSeen () =
      Execute (?rc\<lparr>Request := (Request ?rc)\<lparr>Header :=
                 Header_Set (Header (Request ?rc)) ''Authorization'' ''Bearer ''\<rparr>\<rparr>)
        authorizationSeen ()"
    using t by blast
  also have "\<dots> = (Some [''Bearer ''], ())"
    by (simp add: Execute_def example_rc_def authorizationSeen_def Header_Set_def canon_authorization)
  finally have 3: "Execute (projr (WithConfig rev ?cfg ?rc)) authorizationSeen () =
      (Some [''Bearer ''], ())" .
  show ?thesis by (intro conjI) (rule 1 2 3)+
qed

section \<open>The query string\<close>

lemma upperhex_unhex:
  assumes "n < 16"
  shows "ishex (upperhex n) \<and> unhex (upperhex n) = n"
proof -
  have "list_all (\<lambda>n. ishex (upperhex n) \<and> unhex (upperhex n) = n) [0..<16]"
    by code_simp
  moreover have "n \<in> set [0..<16]" using assms by simp
  ultimately show ?thesis unfolding list_all_iff by blast
qed

lemma upperhex_plain:
  assumes "n < 16"
  shows "upperhex n \<notin> {CHR ''&'', CHR '';'', CHR ''=''}"
proof -
  have "list_all (\<lambda>n. upperhex n \<notin> {CHR ''&'', CHR '';'', CHR ''=''}) [0..<16]"
    by code_simp
  moreover have "n \<in> set [0..<16]" using assms by simp
  ultimately show ?thesis unfolding list_all_iff by blast
qed

lemma nibbles:
  "of_char c div 16 < (16 :: nat)" "of_char c mod 16 < (16 :: nat)"
proof -
  have "(of_char c :: nat) < 16 * 16" by simp
  then show "of_char c div 16 < (16 :: nat)" by (rule less_mult_imp_div_less)
  show "of_char c mod 16 < (16 :: nat)" by simp
qed

lemma set_escapeByte: "set (escapeByte c) \<inter> {CHR ''&'', CHR '';'', CHR ''=''} = {}"
proof -
  show ?thesis
    using upperhex_plain [OF nibbles(1), of c] upperhex_plain [OF nibbles(2), of c]
    by (auto simp: escapeByte_def shouldEscape_def)
qed

lemma set_QueryEscape: "set (QueryEscape s) \<inter> {CHR ''&'', CHR '';'', CHR ''=''} = {}"
  using set_escapeByte by (induction s) (auto simp: QueryEscape_def)

lemma QueryUnescape_escapeByte:
  "QueryUnescape (escapeByte c @ s) = map_option ((#) c) (QueryUnescape s)"
proof (cases "shouldEscape c")
  case False
  then have "c \<noteq> CHR ''%''" "c \<noteq> CHR ''+''" by (auto simp: shouldEscape_def)
  with False show ?thesis by (simp add: escapeByte_def)
next
  case True
  show ?thesis
  proof (cases "c = CHR '' ''")
    case sp: True
    then show ?thesis using True by (simp add: escapeByte_def)
  next
    case sp: False
    note lt = nibbles [of c]
    have "char_of (unhex (upperhex (of_char c div 16)) * 16 + unhex (upperhex (of_char c mod 16))) = c"
      using lt by (simp add: upperhex_unhex)
    then show ?thesis using True sp lt by (simp add: escapeByte_def upperhex_unhex)
  qed
qed

lemma QueryUnescape_QueryEscape: "QueryUnescape (QueryEscape s) = Some s"
proof (induction s)
  case Nil
  then show ?case by (simp add: QueryEscape_def)
next
  case (Cons c s)
  have "QueryEscape (c # s) = escapeByte c @ QueryEscape s" by (simp add: QueryEscape_def)
  then show ?case using Cons by (simp add: QueryUnescape_escapeByte)
qed

lemma Cut_found: "sep \<notin> set a \<Longrightarrow> Cut (a @ sep # b) sep = (a, b, True)"
proof -
  assume a: "sep \<notin> set a"
  then have "takeWhile (\<lambda>c. c \<noteq> sep) (a @ sep # b) = a"
    by (subst takeWhile_append2) auto
  moreover from a have "dropWhile (\<lambda>c. c \<noteq> sep) (a @ sep # b) = sep # b"
    by (subst dropWhile_append2) auto
  ultimately show ?thesis by (simp add: Cut_def)
qed

lemma Cut_not_found: "sep \<notin> set a \<Longrightarrow> Cut a sep = (a, [], False)"
  by (simp add: Cut_def)

lemma QueryEscape_plain:
  "CHR ''&'' \<notin> set (QueryEscape s)" "CHR '';'' \<notin> set (QueryEscape s)"
  "CHR ''='' \<notin> set (QueryEscape s)"
  using set_QueryEscape [of s] by auto

lemma queryPair_plain:
  "CHR ''&'' \<notin> set (queryPair p)" "CHR '';'' \<notin> set (queryPair p)" "queryPair p \<noteq> []"
  by (simp_all add: queryPair_def QueryEscape_plain)

lemma Cut_queryPair:
  "Cut (queryPair p) CHR ''='' = (QueryEscape (fst p), QueryEscape (snd p), True)"
  unfolding queryPair_def using Cut_found [OF QueryEscape_plain(3), of "fst p" "QueryEscape (snd p)"]
  by simp

lemma parseQueryLoop_Nil: "parseQueryLoop m [] = m"
  by (subst parseQueryLoop.simps) simp

lemma parseQueryLoop_step:
  assumes "Cut query CHR ''&'' = (queryPair p, rest, found)"
  shows "parseQueryLoop m query = parseQueryLoop (Values_append m (fst p) (snd p)) rest"
proof -
  have "query \<noteq> []" using assms queryPair_plain(3) [of p] by (auto simp: Cut_def)
  then show ?thesis
    by (subst parseQueryLoop.simps)
      (simp add: assms Let_def queryPair_plain Cut_queryPair QueryUnescape_QueryEscape)
qed

lemma parseQueryLoop_last: "parseQueryLoop m (queryPair p) = Values_append m (fst p) (snd p)"
  using parseQueryLoop_step [of "queryPair p" p "[]" False m]
  by (simp add: Cut_not_found queryPair_plain parseQueryLoop_Nil)

lemma parseQueryLoop_Cons:
  "parseQueryLoop m (queryPair p @ CHR ''&'' # rest) = parseQueryLoop (Values_append m (fst p) (snd p)) rest"
  using parseQueryLoop_step [of "queryPair p @ CHR ''&'' # rest" p rest True m]
  by (simp add: Cut_found queryPair_plain)

lemma parseQueryLoop_Join:
  "parseQueryLoop m (Join (map queryPair ps) ''&'') =
   foldl (\<lambda>m p. Values_append m (fst p) (snd p)) m ps"
proof (induction ps arbitrary: m)
  case Nil
  then show ?case by (simp add: parseQueryLoop_Nil)
next
  case (Cons p ps)
  show ?case
  proof (cases ps)
    case Nil
    then show ?thesis by (simp add: parseQueryLoop_last)
  next
    case (Cons q qs)
    then have "Join (map queryPair (p # ps)) ''&'' =
        queryPair p @ CHR ''&'' # Join (map queryPair ps) ''&''"
      by simp
    then show ?thesis using Cons.IH by (simp add: parseQueryLoop_Cons)
  qed
qed

lemma Encode_queryPairs: "Encode v = Join (map queryPair (queryPairs v)) ''&''"
  by (simp add: Encode_def queryPairs_def queryPair_def map_concat comp_def)

lemma Values_lookup_append:
  "Values_lookup (Values_append m k x) k' =
     (if k' = k then Values_lookup m k @ [x] else Values_lookup m k')"
  by (simp add: Values_lookup_def Values_append_def update_conv')

lemma Values_lookup_foldl:
  "Values_lookup (foldl (\<lambda>m p. Values_append m (fst p) (snd p)) m ps) k =
   Values_lookup m k @ map snd (filter (\<lambda>p. fst p = k) ps)"
  by (induction ps arbitrary: m) (simp_all add: Values_lookup_append)

lemma filter_blocks:
  "distinct ks \<Longrightarrow>
   map snd (filter (\<lambda>p. fst p = k) (concat (map (\<lambda>k'. map (Pair k') (f k')) ks))) =
     (if k \<in> set ks then f k else [])"
proof (induction ks)
  case Nil
  then show ?case by simp
next
  case (Cons a ks)
  have blk: "map snd (filter (\<lambda>p. fst p = k) (map (Pair a) (f a))) = (if a = k then f a else [])"
    by (induction "f a") (auto simp: filter_map comp_def)
  show ?case using Cons blk by (auto simp: comp_def)
qed

lemma Values_lookup_queryPairs:
  assumes "distinct (map fst v)"
  shows "map snd (filter (\<lambda>p. fst p = k) (queryPairs v)) = Values_lookup v k"
proof -
  have "distinct (sort (map fst v))" using assms by simp
  then have "map snd (filter (\<lambda>p. fst p = k) (queryPairs v)) =
      (if k \<in> set (sort (map fst v)) then Values_lookup v k else [])"
    unfolding queryPairs_def by (rule filter_blocks)
  moreover have "Values_lookup v k = []" if "k \<notin> fst ` set v"
  proof -
    have "map_of v k = None" using that by (simp add: map_of_eq_None_iff)
    then show ?thesis by (simp add: Values_lookup_def)
  qed
  ultimately show ?thesis by auto
qed

lemma Values_lookup_Nil: "Values_lookup [] k = []"
  by (simp add: Values_lookup_def)

lemma distinct_Values_append:
  "distinct (map fst m) \<Longrightarrow> distinct (map fst (Values_append m k x))"
  by (simp add: Values_append_def distinct_update)

lemma distinct_parseQueryLoop:
  "distinct (map fst m) \<Longrightarrow> distinct (map fst (parseQueryLoop m query))"
proof (induction m query rule: parseQueryLoop.induct)
  case (1 m query)
  show ?case
    using 1
    by (subst parseQueryLoop.simps) (auto simp: Let_def distinct_Values_append split: option.splits)
qed

lemma Loop_Encode:
  assumes "distinct (map fst v)"
  shows "Values_lookup (parseQueryLoop [] (Encode v)) k = Values_lookup v k"
  by (simp add: Encode_queryPairs parseQueryLoop_Join Values_lookup_foldl
      Values_lookup_queryPairs [OF assms] Values_lookup_Nil)

lemma Query_within:
  "count_list rawQuery CHR ''&'' < 10000 \<Longrightarrow> Query rawQuery = parseQueryLoop [] rawQuery"
  by (simp add: Query_def parseQuery_def urlParamsWithinMax_def)

lemma distinct_Query: "distinct (map fst (Query rawQuery))"
  by (simp add: Query_def parseQuery_def distinct_parseQueryLoop)

lemma set_queryPairs: "set (queryPairs v) = {(k, x). x \<in> set (Values_lookup v k)}"
proof -
  have none: "Values_lookup v k = []" if "k \<notin> fst ` set v" for k
  proof -
    have "map_of v k = None" using that by (simp add: map_of_eq_None_iff)
    then show ?thesis by (simp add: Values_lookup_def)
  qed
  have "set (queryPairs v) = {(k, x). k \<in> fst ` set v \<and> x \<in> set (Values_lookup v k)}"
    by (auto simp: queryPairs_def)
  also have "\<dots> = {(k, x). x \<in> set (Values_lookup v k)}"
    using none by fastforce
  finally show ?thesis .
qed

lemma Split_Encode:
  assumes "queryPairs v \<noteq> []"
  shows "Split (Encode v) CHR ''&'' = map queryPair (queryPairs v)"
  unfolding Encode_queryPairs
  using assms by (intro Split_Join_sep_free) (auto simp: queryPair_plain)

lemma oauthRequest_RawQuery:
  "RawQuery (oauthRequest cfg iter r) =
     (if UseBetaEndpoint cfg then Encode (Values_Set (Query (RawQuery r)) ''beta'' ''true'')
      else RawQuery r)"
  by (simp add: oauthRequest_def Let_def)

lemma Values_lookup_Set:
  "Values_lookup (Values_Set v k x) k' = (if k' = k then [x] else Values_lookup v k')"
  by (simp add: Values_lookup_def Values_Set_def update_conv')

lemma distinct_Values_Set: "distinct (map fst v) \<Longrightarrow> distinct (map fst (Values_Set v k x))"
  by (simp add: Values_Set_def distinct_update)

text \<open>
  Claim C8, as stated, fails on a query with a pair that \<open>URL.Query()\<close> does not yield:
  the query \<open>a=1;b=2&c=3\<close> is read as the single parameter \<open>c\<close>, and the middleware
  writes \<open>beta=true&c=3\<close>, without the pair \<open>a=1;b=2\<close>.
\<close>

theorem rejected_pair_counterexample:
  "UseBetaEndpoint \<lparr>AccessToken = ''T'', RefreshToken = [], Betas = [], UserAgent = [],
     UseBetaEndpoint = True\<rparr> \<and>
   Split ''a=1;b=2&c=3'' CHR ''&'' = [''a=1;b=2'', ''c=3''] \<and>
   Query ''a=1;b=2&c=3'' = [(''c'', [''3''])] \<and>
   RawQuery (oauthRequest \<lparr>AccessToken = ''T'', RefreshToken = [], Betas = [], UserAgent = [],
     UseBetaEndpoint = True\<rparr> rev \<lparr>Header = Map.empty, RawQuery = ''a=1;b=2&c=3''\<rparr>) =
     ''beta=true&c=3'' \<and>
   Split ''beta=true&c=3'' CHR ''&'' = [''beta=true'', ''c=3'']"
proof -
  have 1: "Split ''a=1;b=2&c=3'' CHR ''&'' = [''a=1;b=2'', ''c=3'']" by code_simp
  have 2: "Query ''a=1;b=2&c=3'' = [(''c'', [''3''])]" by code_simp
  have "Encode (Values_Set (Query ''a=1;b=2&c=3'') ''beta'' ''true'') = ''beta=true&c=3''"
    by code_simp
  then have 3: "RawQuery (oauthRequest \<lparr>AccessToken = ''T'', RefreshToken = [], Betas = [],
     UserAgent = [], UseBetaEndpoint = True\<rparr> rev \<lparr>Header = Map.empty, RawQuery = ''a=1;b=2&c=3''\<rparr>) =
     ''beta=true&c=3''"
    by (simp add: oauthRequest_RawQuery)
  have 4: "Split ''beta=true&c=3'' CHR ''&'' = [''beta=true'', ''c=3'']" by code_simp
  have 0: "UseBetaEndpoint \<lparr>AccessToken = ''T'', RefreshToken = [], Betas = [], UserAgent = [],
     UseBetaEndpoint = True\<rparr>" by simp
  show ?thesis by (intro conjI) (rule 0 1 2 3 4)+
qed

lemma image_queryPair:
  "queryPair ` {(k, x). P k x} = {QueryEscape k @ ''='' @ QueryEscape x | k x. P k x}"
proof -
  have "queryPair ` {(k, x). P k x} = {queryPair (k, x) | k x. P k x}" by auto
  then show ?thesis by (simp only: queryPair_def fst_conv snd_conv)
qed

text \<open>
  Claim C8, amended. With \<open>UseBetaEndpoint\<close> set, the pairs of the query string that the
  middleware writes are exactly \<open>beta=true\<close> and, for every other key, \<open>key=value\<close>
  (escaped) for each value that \<open>URL.Query()\<close> read from the request before; a pair that
  \<open>URL.Query()\<close> did not yield is not written. When the new query string has at most
  10000 pairs, \<open>URL.Query()\<close> reads from it \<open>beta\<close> with the one value \<open>true\<close> and
  every other key with the values, in their order, that it read before. A request with
  the query \<open>foo=bar\<close> leaves with \<open>beta=true&foo=bar\<close>.
\<close>

theorem beta_query_parameter:
  assumes "UseBetaEndpoint cfg"
  shows "set (Split (RawQuery (oauthRequest cfg iter r)) CHR ''&'') =
           {QueryEscape k @ ''='' @ QueryEscape x | k x.
              x \<in> set (if k = ''beta'' then [''true''] else Values_lookup (Query (RawQuery r)) k)} \<and>
         (count_list (RawQuery (oauthRequest cfg iter r)) CHR ''&'' < 10000 \<longrightarrow>
            Values_lookup (Query (RawQuery (oauthRequest cfg iter r))) ''beta'' = [''true''] \<and>
            (\<forall>k. k \<noteq> ''beta'' \<longrightarrow>
               Values_lookup (Query (RawQuery (oauthRequest cfg iter r))) k =
               Values_lookup (Query (RawQuery r)) k))"
proof (intro conjI impI)
  let ?v = "Values_Set (Query (RawQuery r)) ''beta'' ''true''"
  have raw: "RawQuery (oauthRequest cfg iter r) = Encode ?v"
    using assms by (simp add: oauthRequest_RawQuery)
  have d: "distinct (map fst ?v)"
    by (rule distinct_Values_Set) (rule distinct_Query)
  have "Values_lookup ?v ''beta'' = [''true'']"
    by (subst Values_lookup_Set) simp
  then have "(''beta'', ''true'') \<in> {(k, x). x \<in> set (Values_lookup ?v k)}"
    by simp
  then have "set (queryPairs ?v) \<noteq> {}"
    unfolding set_queryPairs by blast
  then have ne: "queryPairs ?v \<noteq> []" by simp
  have "set (Split (Encode ?v) CHR ''&'') = queryPair ` set (queryPairs ?v)"
    by (simp add: Split_Encode [OF ne])
  also have "\<dots> = {QueryEscape k @ ''='' @ QueryEscape x | k x.
      x \<in> set (if k = ''beta'' then [''true''] else Values_lookup (Query (RawQuery r)) k)}"
    by (simp only: set_queryPairs image_queryPair Values_lookup_Set)
  finally show "set (Split (RawQuery (oauthRequest cfg iter r)) CHR ''&'') =
      {QueryEscape k @ ''='' @ QueryEscape x | k x.
         x \<in> set (if k = ''beta'' then [''true''] else Values_lookup (Query (RawQuery r)) k)}"
    by (simp only: raw)
  assume "count_list (RawQuery (oauthRequest cfg iter r)) CHR ''&'' < 10000"
  then have "Query (RawQuery (oauthRequest cfg iter r)) = parseQueryLoop [] (Encode ?v)"
    by (simp add: Query_within raw)
  then have l: "Values_lookup (Query (RawQuery (oauthRequest cfg iter r))) k =
      (if k = ''beta'' then [''true''] else Values_lookup (Query (RawQuery r)) k)" for k
    by (simp only: Loop_Encode [OF d] Values_lookup_Set)
  show "Values_lookup (Query (RawQuery (oauthRequest cfg iter r))) ''beta'' = [''true'']"
    by (simp add: l)
  show "\<forall>k. k \<noteq> ''beta'' \<longrightarrow>
      Values_lookup (Query (RawQuery (oauthRequest cfg iter r))) k =
      Values_lookup (Query (RawQuery r)) k"
    by (simp add: l)
qed

theorem beta_query_parameter_witness:
  "UseBetaEndpoint \<lparr>AccessToken = ''T'', RefreshToken = [], Betas = [], UserAgent = [],
     UseBetaEndpoint = True\<rparr> \<and>
   RawQuery (oauthRequest \<lparr>AccessToken = ''T'', RefreshToken = [], Betas = [], UserAgent = [],
     UseBetaEndpoint = True\<rparr> rev \<lparr>Header = Map.empty, RawQuery = ''foo=bar''\<rparr>) = ''beta=true&foo=bar'' \<and>
   count_list ''beta=true&foo=bar'' CHR ''&'' < 10000 \<and>
   Values_lookup (Query ''foo=bar'') ''foo'' = [''bar''] \<and>
   Values_lookup (Query ''beta=true&foo=bar'') ''foo'' = [''bar''] \<and>
   Values_lookup (Query ''beta=true&foo=bar'') ''beta'' = [''true'']"
proof -
  let ?cfg = "\<lparr>AccessToken = ''T'', RefreshToken = [], Betas = [], UserAgent = [],
     UseBetaEndpoint = True\<rparr>"
  let ?r = "\<lparr>Header = Map.empty, RawQuery = ''foo=bar''\<rparr>"
  have 1: "UseBetaEndpoint ?cfg" by simp
  have "Encode (Values_Set (Query ''foo=bar'') ''beta'' ''true'') = ''beta=true&foo=bar''"
    by code_simp
  then have 2: "RawQuery (oauthRequest ?cfg rev ?r) = ''beta=true&foo=bar''"
    by (simp add: oauthRequest_RawQuery)
  have 3: "Values_lookup (Query ''foo=bar'') ''foo'' = [''bar'']" by code_simp
  have 4: "count_list ''beta=true&foo=bar'' CHR ''&'' < 10000" by simp
  then have 5: "count_list (RawQuery (oauthRequest ?cfg rev ?r)) CHR ''&'' < 10000"
    by (simp only: 2)
  from beta_query_parameter [OF 1, of rev ?r] 5
  have "Values_lookup (Query (RawQuery (oauthRequest ?cfg rev ?r))) ''beta'' = [''true'']"
    and "Values_lookup (Query (RawQuery (oauthRequest ?cfg rev ?r))) ''foo'' =
         Values_lookup (Query (RawQuery ?r)) ''foo''"
    by simp_all
  then have 6: "Values_lookup (Query ''beta=true&foo=bar'') ''beta'' = [''true'']"
    and 7: "Values_lookup (Query ''beta=true&foo=bar'') ''foo'' = [''bar'']"
    using 2 3 by simp_all
  show ?thesis by (intro conjI) (rule 1 2 3 4 6 7)+
qed

end
